theory Spec2Isabelle
  imports Complex_Main
begin

section \<open>Search spaces of baybe: a shallow embedding of \<^verbatim>\<open>baybe/searchspace.py\<close>\<close>

text \<open>
  The module manages a discrete subspace (an enumerated table of parameter combinations
  with bookkeeping flags), a continuous subspace (a list of bounded parameters) and their
  composition. Data frames become lists of labelled rows, tensors become lists of rows,
  every \<^verbatim>\<open>raise\<close> becomes a value of type \<open>error\<close>.
\<close>

subsection \<open>Errors\<close>

datatype error =
    MissingColumns
      \<comment> \<open>\<^verbatim>\<open>ValueError("Values for all parameter must be specified ...")\<close>\<close>
  | InvalidValue nat string
      \<comment> \<open>\<^verbatim>\<open>ValueError("Input data on row with the index ... parameter '...'")\<close>\<close>
  | TooManyPoints int nat
      \<comment> \<open>\<^verbatim>\<open>ValueError("You are trying to sample ...")\<close> of \<^verbatim>\<open>samples_full_factorial\<close>\<close>
  | NegativeSample
      \<comment> \<open>\<^verbatim>\<open>ValueError\<close> of \<^verbatim>\<open>DataFrame.sample\<close> for a negative \<^verbatim>\<open>n\<close>\<close>
  | NoArrays
      \<comment> \<open>\<^verbatim>\<open>ValueError("need at least one array to concatenate")\<close> of \<^verbatim>\<open>np.hstack([])\<close>\<close>
  | NotInList string
      \<comment> \<open>\<^verbatim>\<open>ValueError\<close> of \<^verbatim>\<open>list.index\<close>\<close>
  | TooFewParameters
      \<comment> \<open>\<^verbatim>\<open>ValueError\<close> of the \<^verbatim>\<open>min_len(1)\<close> validator\<close>
  | KeyError string
  | KeyErrorLabel nat
  | TypeError
  | AmbiguousTruthValue
      \<comment> \<open>\<^verbatim>\<open>RuntimeError("Boolean value of Tensor with ... is ambiguous")\<close>\<close>

subsection \<open>Continuous subspace\<close>

text \<open>A tensor entry: a float that is finite, one of the two infinities, or NaN.\<close>

datatype bound = NegInf | Fin real | PosInf | NaN

fun bound_le :: "bound \<Rightarrow> bound \<Rightarrow> bool" where
  "bound_le NaN _ = False"
| "bound_le _ NaN = False"
| "bound_le NegInf _ = True"
| "bound_le _ PosInf = True"
| "bound_le (Fin x) (Fin y) = (x \<le> y)"
| "bound_le _ _ = False"

definition bound_max :: "bound \<Rightarrow> bound \<Rightarrow> bound" where
  "bound_max a b = (if bound_le a b then b else a)"

definition bound_min :: "bound \<Rightarrow> bound \<Rightarrow> bound" where
  "bound_min a b = (if bound_le a b then a else b)"

fun isfinite :: "bound \<Rightarrow> bool" where
  "isfinite (Fin _) = True"
| "isfinite _ = False"

type_synonym tensor = "bound list list"

definition INF_BOUNDS_REPLACEMENT :: real where
  "INF_BOUNDS_REPLACEMENT = 1000"

text \<open>
  \<^verbatim>\<open>torch.clip(t, lo, hi)\<close>: elementwise \<open>min (max x lo) hi\<close>, into a new tensor; NaN stays
  NaN.
\<close>

definition clip1 :: "real \<Rightarrow> real \<Rightarrow> bound \<Rightarrow> bound" where
  "clip1 lo hi x = (if x = NaN then NaN else bound_min (bound_max x (Fin lo)) (Fin hi))"

definition clip :: "tensor \<Rightarrow> real \<Rightarrow> real \<Rightarrow> tensor" where
  "clip t lo hi = map (map (clip1 lo hi)) t"

text \<open>
  \<^verbatim>\<open>bool(t)\<close> of a tensor, as \<^verbatim>\<open>not t\<close> and \<^verbatim>\<open>if t\<close> compute it: defined only for a
  tensor of exactly one element, a \<^verbatim>\<open>RuntimeError\<close> otherwise.
\<close>

definition tensor_bool :: "bool list list \<Rightarrow> error + bool" where
  "tensor_bool t =
     (case concat t of [b] \<Rightarrow> Inr b | _ \<Rightarrow> Inl AmbiguousTruthValue)"

record numeric_continuous =
  c_name :: string
  c_bounds :: "bound \<times> bound"

record subspace_continuous =
  c_parameters :: "numeric_continuous list"

definition c_empty :: "subspace_continuous \<Rightarrow> bool" where
  "c_empty s = (length (c_parameters s) = 0)"

definition param_names :: "subspace_continuous \<Rightarrow> string list" where
  "param_names s = map c_name (c_parameters s)"

text \<open>
  \<^verbatim>\<open>torch.tensor([p.bounds for p in self.parameters]).T\<close>: the \<open>k \<times> 2\<close> list of pairs,
  transposed into the row of lower bounds and the row of upper bounds;
  \<^verbatim>\<open>torch.empty(2, 0)\<close> without parameters. The entries are the values that the tensor
  holds: a declared bound stands for its single-precision float, and the conversion itself
  (its rounding, and its error for an integer beyond 64 bits) is not part of the model.
\<close>

definition c_param_bounds_comp :: "subspace_continuous \<Rightarrow> tensor" where
  "c_param_bounds_comp s =
     (if c_parameters s = [] then [[], []]
      else [map (\<lambda>p. fst (c_bounds p)) (c_parameters s),
            map (\<lambda>p. snd (c_bounds p)) (c_parameters s)])"

definition bounds_forced_finite :: "subspace_continuous \<Rightarrow> tensor" where
  "bounds_forced_finite s =
     clip (c_param_bounds_comp s) (- INF_BOUNDS_REPLACEMENT) INF_BOUNDS_REPLACEMENT"

definition is_fully_bounded :: "subspace_continuous \<Rightarrow> bool list list" where
  "is_fully_bounded s = map (map isfinite) (c_param_bounds_comp s)"

text \<open>
  \<^verbatim>\<open>pd.MultiIndex.from_product(self.bounds_forced_finite.T.tolist())\<close>, reset into a
  frame: one row per element of the product of the \<open>[lower, upper]\<close> pairs.
\<close>

definition corner_rows :: "subspace_continuous \<Rightarrow> bound list list" where
  "corner_rows s = product_lists (transpose (bounds_forced_finite s))"

text \<open>
  \<^verbatim>\<open>full_factorial\<close> first tests \<^verbatim>\<open>not self.is_fully_bounded\<close>, the truth value of the
  tensor \<^verbatim>\<open>torch.isfinite(...)\<close>; the warning it guards has no effect on the result.
\<close>

definition full_factorial :: "subspace_continuous \<Rightarrow> error + bound list list" where
  "full_factorial s =
     (case tensor_bool (is_fully_bounded s) of
        Inl e \<Rightarrow> Inl e
      | Inr _ \<Rightarrow> Inr (corner_rows s))"

text \<open>
  \<^verbatim>\<open>full_factorial.sample(n=n_points)\<close> draws row positions at random without
  replacement; the drawn positions are the parameter \<open>pick\<close>.
\<close>

definition samples_full_factorial ::
  "subspace_continuous \<Rightarrow> int \<Rightarrow> nat list \<Rightarrow> error + bound list list" where
  "samples_full_factorial s n_points pick =
     (case full_factorial s of
        Inl e \<Rightarrow> Inl e
      | Inr ff \<Rightarrow>
          if int (length ff) < n_points then Inl (TooManyPoints n_points (length ff))
          else if n_points < 0 then Inl NegativeSample
          else Inr (map (\<lambda>i. ff ! i) pick))"

subsection \<open>Data frames\<close>

text \<open>
  An experimental cell is a number (a finite float) or a label. A \<^verbatim>\<open>pd.DataFrame\<close> is its column names
  and its rows in order, each row with its index label. A column label is looked up at
  its first occurrence.
\<close>

datatype val = Num real | Cat string

record 'a frame =
  columns :: "string list"
  body :: "(nat \<times> 'a list) list"

definition index :: "'a frame \<Rightarrow> nat list" where
  "index f = map fst (body f)"

definition empty_frame :: "'a frame" where
  "empty_frame = \<lparr>columns = [], body = []\<rparr>"

definition position :: "'k list \<Rightarrow> 'k \<Rightarrow> nat" where
  "position ks k = length (takeWhile (\<lambda>x. x \<noteq> k) ks)"

text \<open>\<^verbatim>\<open>row[name]\<close> for a row of a frame with the given columns.\<close>

definition cell :: "string list \<Rightarrow> 'a list \<Rightarrow> string \<Rightarrow> error + 'a" where
  "cell cols r c =
     (if c \<in> set cols \<and> position cols c < length r then Inr (r ! position cols c)
      else Inl (KeyError c))"

text \<open>\<^verbatim>\<open>data[name]\<close>: one column as a labelled series.\<close>

definition get_column :: "'a frame \<Rightarrow> string \<Rightarrow> error + (nat \<times> 'a) list" where
  "get_column f c =
     (if c \<in> set (columns f) \<and> list_all (\<lambda>lr. position (columns f) c < length (snd lr)) (body f)
      then Inr (map (\<lambda>lr. (fst lr, snd lr ! position (columns f) c)) (body f))
      else Inl (KeyError c))"

text \<open>\<^verbatim>\<open>df[cols]\<close>: the listed columns, in the listed order.\<close>

definition select_columns :: "'a frame \<Rightarrow> string list \<Rightarrow> error + 'a frame" where
  "select_columns f cols =
     (case filter (\<lambda>c. c \<notin> set (columns f)) cols of
        c # _ \<Rightarrow> Inl (KeyError c)
      | [] \<Rightarrow> Inr \<lparr>columns = cols,
                  body = map (\<lambda>lr. (fst lr, map (\<lambda>c. snd lr ! position (columns f) c) cols))
                           (body f)\<rparr>)"

text \<open>\<^verbatim>\<open>pd.concat(dfs, axis=1)\<close> of frames over one index; \<^verbatim>\<open>pd.DataFrame()\<close> for no frame.\<close>

definition hjoin :: "'a frame \<Rightarrow> 'a frame \<Rightarrow> 'a frame" where
  "hjoin f g =
     \<lparr>columns = columns f @ columns g,
      body = map (\<lambda>(lr, lr'). (fst lr, snd lr @ snd lr')) (zip (body f) (body g))\<rparr>"

fun concat_axis1 :: "'a frame list \<Rightarrow> 'a frame" where
  "concat_axis1 [] = empty_frame"
| "concat_axis1 [f] = f"
| "concat_axis1 (f # fs) = hjoin f (concat_axis1 fs)"

text \<open>\<^verbatim>\<open>df.drop(index=inds)\<close>: a \<^verbatim>\<open>KeyError\<close> for a label that is not in the index.\<close>

definition drop_index :: "'a frame \<Rightarrow> nat list \<Rightarrow> error + 'a frame" where
  "drop_index f inds =
     (case filter (\<lambda>l. l \<notin> set (index f)) inds of
        l # _ \<Rightarrow> Inl (KeyErrorLabel l)
      | [] \<Rightarrow> Inr (f\<lparr>body := filter (\<lambda>lr. fst lr \<notin> set inds) (body f)\<rparr>))"

text \<open>\<^verbatim>\<open>df.reset_index(drop=True)\<close>: the labels become \<open>0, 1, ...\<close>.\<close>

definition reset_index :: "'a frame \<Rightarrow> 'a frame" where
  "reset_index f = f\<lparr>body := enumerate 0 (map snd (body f))\<rparr>"

text \<open>
  Modelled from the spec: \<^verbatim>\<open>utils.df_drop_single_value_columns\<close> is not part of the
  sources at hand. It drops the columns whose value is constant across all rows.
\<close>

definition constant_column :: "'a frame \<Rightarrow> nat \<Rightarrow> bool" where
  "constant_column f j = (length (remdups (map (\<lambda>lr. snd lr ! j) (body f))) \<le> 1)"

definition df_drop_single_value_columns :: "'a frame \<Rightarrow> 'a frame" where
  "df_drop_single_value_columns f =
     (let keep = filter (\<lambda>j. \<not> constant_column f j) [0..<length (columns f)]
      in \<lparr>columns = map (\<lambda>j. columns f ! j) keep,
          body = map (\<lambda>lr. (fst lr, map (\<lambda>j. snd lr ! j) keep)) (body f)\<rparr>)"

subsection \<open>Parameters and constraints\<close>

text \<open>
  The parameter classes are not part of the sources at hand; a discrete parameter is the
  record of what the search space reads from it. \<open>is_in_range\<close> is the parameter's own
  method, \<open>comp_df\<close> holds the columns of its computational representation, each aligned
  with \<open>values_of\<close>.
\<close>

record discrete_parameter =
  name :: string
  is_numeric :: bool
  values_of :: "val list"
  is_in_range :: "val \<Rightarrow> bool"
  comp_df :: "(string \<times> real list) list"

datatype parameter = Discrete discrete_parameter | Continuous numeric_continuous

fun is_discrete :: "parameter \<Rightarrow> bool" where
  "is_discrete (Discrete _) = True"
| "is_discrete (Continuous _) = False"

text \<open>
  Modelled from the spec: \<^verbatim>\<open>transform_rep_exp2comp\<close> is the per-parameter
  experimental-to-computational transform. Each value is replaced by its row of
  \<open>comp_df\<close>; a value outside the domain has no row (\<open>None\<close>, pandas' NaN).
\<close>

definition encode :: "discrete_parameter \<Rightarrow> val \<Rightarrow> real option list" where
  "encode p v =
     map (\<lambda>cx. if v \<in> set (values_of p) \<and> position (values_of p) v < length (snd cx)
                then Some (snd cx ! position (values_of p) v) else None)
         (comp_df p)"

definition transform_rep_exp2comp ::
  "discrete_parameter \<Rightarrow> (nat \<times> val) list \<Rightarrow> real option frame" where
  "transform_rep_exp2comp p series =
     \<lparr>columns = map fst (comp_df p), body = map (\<lambda>lv. (fst lv, encode p (snd lv))) series\<rparr>"

text \<open>
  Modelled from the spec: \<^verbatim>\<open>parameter_cartesian_prod_to_df\<close> enumerates the Cartesian
  product of the parameters' value domains, one row per combination, the first parameter
  varying slowest. Without parameters the frame has no column and no row.
\<close>

definition parameter_cartesian_prod_to_df :: "discrete_parameter list \<Rightarrow> val frame" where
  "parameter_cartesian_prod_to_df ps =
     (if ps = [] then empty_frame
      else \<lparr>columns = map name ps,
            body = enumerate 0 (product_lists (map values_of ps))\<rparr>)"

text \<open>
  A constraint is what \<^verbatim>\<open>create\<close> reads from it: its type tag, whether it is evaluated
  at creation, and \<^verbatim>\<open>get_invalid\<close>, from a frame to the index labels of its invalid rows.
\<close>

record constraint =
  ctype :: string
  eval_during_creation :: bool
  get_invalid :: "val frame \<Rightarrow> nat list"

text \<open>
  \<^verbatim>\<open>sorted(constraints, key=lambda x: _constraints_order.index(x.type))\<close>: a stable sort;
  \<^verbatim>\<open>list.index\<close> raises for a type that is not listed. The list \<^verbatim>\<open>_constraints_order\<close>
  is the parameter \<open>ord\<close>.
\<close>

definition sort_constraints :: "string list \<Rightarrow> constraint list \<Rightarrow> error + constraint list" where
  "sort_constraints ord cs =
     (case filter (\<lambda>c. ctype c \<notin> set ord) cs of
        c # _ \<Rightarrow> Inl (NotInList (ctype c))
      | [] \<Rightarrow> Inr (sort_key (\<lambda>c. position ord (ctype c)) cs))"

fun remove_invalid :: "constraint list \<Rightarrow> val frame \<Rightarrow> error + val frame" where
  "remove_invalid [] f = Inr f"
| "remove_invalid (c # cs) f =
     (case drop_index f (get_invalid c f) of
        Inl e \<Rightarrow> Inl e
      | Inr f' \<Rightarrow> remove_invalid cs f')"

subsection \<open>Discrete subspace\<close>

record flags =
  was_recommended :: bool
  was_measured :: bool
  dont_recommend :: bool

record subspace_discrete =
  parameters :: "discrete_parameter list"
  exp_rep :: "val frame"
  comp_rep :: "real option frame"
  metadata :: "(nat \<times> flags) list"
  empty_encoding :: bool

text \<open>The loop of \<^verbatim>\<open>transform\<close> over the parameters, then \<^verbatim>\<open>pd.concat\<close>.\<close>

fun encode_columns ::
  "discrete_parameter list \<Rightarrow> val frame \<Rightarrow> error + real option frame list" where
  "encode_columns [] data = Inr []"
| "encode_columns (p # ps) data =
     (case get_column data (name p) of
        Inl e \<Rightarrow> Inl e
      | Inr series \<Rightarrow>
          (case encode_columns ps data of
             Inl e \<Rightarrow> Inl e
           | Inr dfs \<Rightarrow> Inr (transform_rep_exp2comp p series # dfs)))"

text \<open>
  \<^verbatim>\<open>transform\<close>. The argument \<open>frozen\<close> is \<^verbatim>\<open>self.comp_rep.columns\<close>: \<open>None\<close> while the
  attribute is not yet set (the \<^verbatim>\<open>AttributeError\<close> branch, taken inside
  \<^verbatim>\<open>__attrs_post_init__\<close>), the column names of \<open>comp_rep\<close> afterwards.
\<close>

definition transform_with ::
  "discrete_parameter list \<Rightarrow> bool \<Rightarrow> string list option \<Rightarrow> val frame
     \<Rightarrow> error + real option frame" where
  "transform_with ps ee frozen data =
     (if ee \<or> length (body data) < 1
      then Inr \<lparr>columns = [], body = map (\<lambda>lr. (fst lr, [])) (body data)\<rparr>
      else case encode_columns ps data of
             Inl e \<Rightarrow> Inl e
           | Inr dfs \<Rightarrow>
               (case frozen of
                  None \<Rightarrow> Inr (concat_axis1 dfs)
                | Some cols \<Rightarrow> select_columns (concat_axis1 dfs) cols))"

definition transform :: "subspace_discrete \<Rightarrow> val frame \<Rightarrow> error + real option frame" where
  "transform s data =
     transform_with (parameters s) (empty_encoding s) (Some (columns (comp_rep s))) data"

text \<open>The generated constructor followed by \<^verbatim>\<open>__attrs_post_init__\<close>.\<close>

definition fresh_flags :: flags where
  "fresh_flags = \<lparr>was_recommended = False, was_measured = False, dont_recommend = False\<rparr>"

definition SubspaceDiscrete ::
  "discrete_parameter list \<Rightarrow> val frame \<Rightarrow> bool \<Rightarrow> error + subspace_discrete" where
  "SubspaceDiscrete ps erep ee =
     (case transform_with ps ee None erep of
        Inl e \<Rightarrow> Inl e
      | Inr crep \<Rightarrow>
          Inr \<lparr>parameters = ps, exp_rep = erep,
               comp_rep = df_drop_single_value_columns crep,
               metadata = map (\<lambda>l. (l, fresh_flags)) (index erep),
               empty_encoding = ee\<rparr>)"

definition create ::
  "string list \<Rightarrow> discrete_parameter list \<Rightarrow> constraint list option \<Rightarrow> bool
     \<Rightarrow> error + subspace_discrete" where
  "create ord ps constraints ee =
     (case (case constraints of None \<Rightarrow> Inr [] | Some cs \<Rightarrow> sort_constraints ord cs) of
        Inl e \<Rightarrow> Inl e
      | Inr cs \<Rightarrow>
          (case remove_invalid (filter eval_during_creation cs)
                  (parameter_cartesian_prod_to_df ps) of
             Inl e \<Rightarrow> Inl e
           | Inr erep \<Rightarrow> SubspaceDiscrete ps (reset_index erep) ee))"

definition d_empty :: "subspace_discrete \<Rightarrow> bool" where
  "d_empty s = (length (parameters s) = 0)"

text \<open>
  \<^verbatim>\<open>df.loc[mask]\<close> for a boolean series: the series is aligned with the frame by index
  label, and a frame label that the series lacks is an indexing error (here \<open>KeyErrorLabel\<close>).
  Over one and the same index this keeps the rows at the positions where the series holds.
\<close>

definition loc_mask :: "'a frame \<Rightarrow> (nat \<times> bool) list \<Rightarrow> error + 'a frame" where
  "loc_mask f sel =
     (if map fst sel = index f
      then Inr (f\<lparr>body := map fst (filter snd (zip (body f) (map snd sel)))\<rparr>)
      else case filter (\<lambda>l. map_of sel l = None) (index f) of
             l # _ \<Rightarrow> Inl (KeyErrorLabel l)
           | [] \<Rightarrow> Inr (f\<lparr>body := filter (\<lambda>lr. map_of sel (fst lr) = Some True) (body f)\<rparr>))"

definition mask_todrop :: "subspace_discrete \<Rightarrow> bool \<Rightarrow> bool \<Rightarrow> (nat \<times> bool) list" where
  "mask_todrop s allow_repeated_recommendations allow_recommending_already_measured =
     map (\<lambda>lf. (fst lf,
            (dont_recommend (snd lf)
               \<or> (\<not> allow_repeated_recommendations \<and> was_recommended (snd lf)))
               \<or> (\<not> allow_recommending_already_measured \<and> was_measured (snd lf))))
         (metadata s)"

definition get_candidates ::
  "subspace_discrete \<Rightarrow> bool \<Rightarrow> bool \<Rightarrow> error + (val frame \<times> real option frame)" where
  "get_candidates s allow_repeated_recommendations allow_recommending_already_measured =
     (let keep = map (\<lambda>lb. (fst lb, \<not> snd lb))
                   (mask_todrop s allow_repeated_recommendations
                      allow_recommending_already_measured)
      in case loc_mask (exp_rep s) keep of
           Inl e \<Rightarrow> Inl e
         | Inr e_sel \<Rightarrow>
             (case loc_mask (comp_rep s) keep of
                Inl e \<Rightarrow> Inl e
              | Inr c_sel \<Rightarrow> Inr (e_sel, c_sel)))"

subsection \<open>Matching measurements\<close>

definition num_of :: "val \<Rightarrow> error + real" where
  "num_of v = (case v of Num x \<Rightarrow> Inr x | Cat _ \<Rightarrow> Inl TypeError)"

fun cells :: "string list \<Rightarrow> 'a list \<Rightarrow> string list \<Rightarrow> error + 'a list" where
  "cells cols r [] = Inr []"
| "cells cols r (c # cs) =
     (case cell cols r c of
        Inl e \<Rightarrow> Inl e
      | Inr v \<Rightarrow> (case cells cols r cs of Inl e \<Rightarrow> Inl e | Inr vs \<Rightarrow> Inr (v # vs)))"

fun nums_of :: "val list \<Rightarrow> error + real list" where
  "nums_of [] = Inr []"
| "nums_of (v # vs) =
     (case num_of v of
        Inl e \<Rightarrow> Inl e
      | Inr x \<Rightarrow> (case nums_of vs of Inl e \<Rightarrow> Inl e | Inr xs \<Rightarrow> Inr (x # xs)))"

text \<open>
  The validity loop over the parameters for one input row with label \<open>l\<close>: the flag
  \<^verbatim>\<open>valid\<close> is updated per parameter and tested right after.
\<close>

fun check_row ::
  "discrete_parameter list \<Rightarrow> bool \<Rightarrow> string list \<Rightarrow> nat \<Rightarrow> val list \<Rightarrow> bool \<Rightarrow> error + bool"
  where
  "check_row [] must cols l r valid = Inr valid"
| "check_row (p # ps) must cols l r valid =
     (case (if is_numeric p \<and> \<not> must then Inr valid
            else case cell cols r (name p) of
                   Inl e \<Rightarrow> Inl e
                 | Inr v \<Rightarrow> Inr (valid \<and> is_in_range p v)) of
        Inl e \<Rightarrow> Inl e
      | Inr valid' \<Rightarrow>
          if \<not> valid' then Inl (InvalidValue l (name p))
          else check_row ps must cols l r valid')"

definition cat_cols :: "discrete_parameter list \<Rightarrow> string list" where
  "cat_cols ps = map name (filter (\<lambda>p. \<not> is_numeric p) ps)"

definition num_cols :: "discrete_parameter list \<Rightarrow> string list" where
  "num_cols ps = map name (filter (\<lambda>p. is_numeric p \<and> is_discrete (Discrete p)) ps)"

text \<open>
  The deviation \<^verbatim>\<open>(self.exp_rep[param] - row[param]).abs()\<close> is computed in floating point:
  the subtraction rounds, and it overflows to infinity. Nothing is assumed of it: the
  computation for one cell, \<open>absdiff y x\<close> for the cell \<open>y\<close> of \<open>exp_rep\<close> and the measured \<open>x\<close>,
  is a parameter of the matching functions, with values in any linear order (the finite
  floats and infinity). Comparing two deviations and taking their minimum are exact.

  \<^verbatim>\<open>Series.min()\<close>: NaN (\<open>None\<close>) for an empty series.
\<close>

definition series_min :: "'d::linorder list \<Rightarrow> 'd option" where
  "series_min xs = (case xs of [] \<Rightarrow> None | x # ys \<Rightarrow> Some (fold min ys x))"

text \<open>
  \<^verbatim>\<open>match &= abs_diff == abs_diff.min()\<close> for each numeric column in turn; the minimum is
  taken over the whole column of \<^verbatim>\<open>exp_rep\<close>.
\<close>

fun narrow ::
  "(real \<Rightarrow> real \<Rightarrow> 'd::linorder) \<Rightarrow> val frame \<Rightarrow> string list \<Rightarrow> val list \<Rightarrow> string list
     \<Rightarrow> bool list \<Rightarrow> error + bool list" where
  "narrow absdiff erep cols r [] match = Inr match"
| "narrow absdiff erep cols r (param # params) match =
     (case get_column erep param of
        Inl e \<Rightarrow> Inl e
      | Inr series \<Rightarrow>
          (case cell cols r param of
             Inl e \<Rightarrow> Inl e
           | Inr v \<Rightarrow>
               (case nums_of (map snd series) of
                  Inl e \<Rightarrow> Inl e
                | Inr xs \<Rightarrow>
                    (case num_of v of
                       Inl e \<Rightarrow> Inl e
                     | Inr x \<Rightarrow>
                         (let abs_diff = map (\<lambda>y. absdiff y x) xs
                          in narrow absdiff erep cols r params
                               (map (\<lambda>(m, d). m \<and> Some d = series_min abs_diff)
                                  (zip match abs_diff)))))))"

definition inds_found ::
  "(real \<Rightarrow> real \<Rightarrow> 'd::linorder) \<Rightarrow> subspace_discrete \<Rightarrow> string list \<Rightarrow> val list
     \<Rightarrow> error + nat list" where
  "inds_found absdiff s cols r =
     (case select_columns (exp_rep s) (cat_cols (parameters s)) of
        Inl e \<Rightarrow> Inl e
      | Inr cats \<Rightarrow>
          (case cells cols r (cat_cols (parameters s)) of
             Inl e \<Rightarrow> Inl e
           | Inr row_cats \<Rightarrow>
               (case narrow absdiff (exp_rep s) cols r (num_cols (parameters s))
                       (map (\<lambda>lr. snd lr = row_cats) (body cats)) of
                  Inl e \<Rightarrow> Inl e
                | Inr match \<Rightarrow>
                    Inr (map fst (filter snd (zip (index (exp_rep s)) match))))))"

text \<open>The three branches after the search; the warnings leave no trace in the result.\<close>

definition recorded :: "discrete_parameter list \<Rightarrow> nat list \<Rightarrow> nat list" where
  "recorded ps found =
     (if length found = 0 \<and> length (num_cols ps) > 0 then []
      else if length found > 1 then [found ! 0]
      else found)"

fun match_rows ::
  "(real \<Rightarrow> real \<Rightarrow> 'd::linorder) \<Rightarrow> subspace_discrete \<Rightarrow> bool \<Rightarrow> string list
     \<Rightarrow> (nat \<times> val list) list \<Rightarrow> error + nat list" where
  "match_rows absdiff s must cols [] = Inr []"
| "match_rows absdiff s must cols (lr # rest) =
     (case check_row (parameters s) must cols (fst lr) (snd lr) True of
        Inl e \<Rightarrow> Inl e
      | Inr _ \<Rightarrow>
          (case inds_found absdiff s cols (snd lr) of
             Inl e \<Rightarrow> Inl e
           | Inr found \<Rightarrow>
               (case match_rows absdiff s must cols rest of
                  Inl e \<Rightarrow> Inl e
                | Inr inds \<Rightarrow> Inr (recorded (parameters s) found @ inds))))"

definition match_measurement_with_searchspace_indices ::
  "(real \<Rightarrow> real \<Rightarrow> 'd::linorder) \<Rightarrow> subspace_discrete \<Rightarrow> val frame \<Rightarrow> bool
     \<Rightarrow> error + nat list" where
  "match_measurement_with_searchspace_indices absdiff s df
     numerical_measurements_must_be_within_tolerance =
     (if \<not> list_all (\<lambda>c. c \<in> set (columns df)) (columns (exp_rep s)) then Inl MissingColumns
      else match_rows absdiff s numerical_measurements_must_be_within_tolerance (columns df)
             (body df))"

text \<open>
  \<^verbatim>\<open>self.metadata.loc[inds_matched, "was_measured"] = True\<close>: a \<^verbatim>\<open>KeyError\<close> for a label
  outside the index, else the flag is set in the rows with these labels.
\<close>

definition set_was_measured ::
  "(nat \<times> flags) list \<Rightarrow> nat list \<Rightarrow> error + (nat \<times> flags) list" where
  "set_was_measured md inds =
     (case filter (\<lambda>l. l \<notin> set (map fst md)) inds of
        l # _ \<Rightarrow> Inl (KeyErrorLabel l)
      | [] \<Rightarrow> Inr (map (\<lambda>lf. if fst lf \<in> set inds
                              then (fst lf, (snd lf)\<lparr>was_measured := True\<rparr>) else lf) md))"

text \<open>
  \<^verbatim>\<open>mark_as_measured\<close> mutates the subspace: the result is the subspace after the call and
  the exception that ended it, if any.
\<close>

definition mark_as_measured ::
  "(real \<Rightarrow> real \<Rightarrow> 'd::linorder) \<Rightarrow> subspace_discrete \<Rightarrow> val frame \<Rightarrow> bool
     \<Rightarrow> subspace_discrete \<times> error option" where
  "mark_as_measured absdiff s measurements numerical_measurements_must_be_within_tolerance =
     (case match_measurement_with_searchspace_indices absdiff s measurements
             numerical_measurements_must_be_within_tolerance of
        Inl e \<Rightarrow> (s, Some e)
      | Inr inds_matched \<Rightarrow>
          (case set_was_measured (metadata s) inds_matched of
             Inl e \<Rightarrow> (s, Some e)
           | Inr md \<Rightarrow> (s\<lparr>metadata := md\<rparr>, None)))"

subsection \<open>Bounds of the discrete subspace and the composed search space\<close>

text \<open>
  \<^verbatim>\<open>comp_df[col].min()\<close> and \<^verbatim>\<open>.max()\<close>: NaN for an empty column.
\<close>

definition col_min :: "real list \<Rightarrow> bound" where
  "col_min xs = (case xs of [] \<Rightarrow> NaN | x # ys \<Rightarrow> Fin (fold min ys x))"

definition col_max :: "real list \<Rightarrow> bound" where
  "col_max xs = (case xs of [] \<Rightarrow> NaN | x # ys \<Rightarrow> Fin (fold max ys x))"

text \<open>The list comprehension of \<^verbatim>\<open>param_bounds_comp\<close>: one \<open>2 \<times> 1\<close> block per kept column.\<close>

definition bound_blocks :: "subspace_discrete \<Rightarrow> (bound \<times> bound) list" where
  "bound_blocks s =
     concat (map (\<lambda>p. map (\<lambda>cx. (col_min (snd cx), col_max (snd cx)))
                        (filter (\<lambda>cx. fst cx \<in> set (columns (comp_rep s))) (comp_df p)))
                 (parameters s))"

definition d_param_bounds_comp :: "subspace_discrete \<Rightarrow> error + tensor" where
  "d_param_bounds_comp s =
     (if parameters s = [] then Inr [[], []]
      else if bound_blocks s = [] then Inl NoArrays
      else Inr [map fst (bound_blocks s), map snd (bound_blocks s)])"

text \<open>\<^verbatim>\<open>torch.hstack\<close> of two matrices of equal height.\<close>

definition hstack :: "tensor \<Rightarrow> tensor \<Rightarrow> tensor" where
  "hstack t u = map (\<lambda>(a, b). a @ b) (zip t u)"

record search_space =
  discrete :: subspace_discrete
  continuous :: subspace_continuous
  ss_parameters :: "parameter list"
  ss_empty_encoding :: bool

definition discrete_of :: "parameter list \<Rightarrow> discrete_parameter list" where
  "discrete_of ps = concat (map (\<lambda>p. case p of Discrete d \<Rightarrow> [d] | Continuous _ \<Rightarrow> []) ps)"

definition continuous_of :: "parameter list \<Rightarrow> numeric_continuous list" where
  "continuous_of ps = concat (map (\<lambda>p. case p of Discrete _ \<Rightarrow> [] | Continuous c \<Rightarrow> [c]) ps)"

text \<open>The generated constructor with the validator \<^verbatim>\<open>min_len(1)\<close> on \<^verbatim>\<open>parameters\<close>.\<close>

definition SearchSpace ::
  "subspace_discrete \<Rightarrow> subspace_continuous \<Rightarrow> parameter list \<Rightarrow> bool \<Rightarrow> error + search_space"
  where
  "SearchSpace d c ps ee =
     (if length ps < 1 then Inl TooFewParameters
      else Inr \<lparr>discrete = d, continuous = c, ss_parameters = ps, ss_empty_encoding = ee\<rparr>)"

definition SearchSpace_create ::
  "string list \<Rightarrow> parameter list \<Rightarrow> constraint list option \<Rightarrow> bool \<Rightarrow> error + search_space"
  where
  "SearchSpace_create ord ps constraints ee =
     (case create ord (discrete_of ps) constraints ee of
        Inl e \<Rightarrow> Inl e
      | Inr d \<Rightarrow> SearchSpace d \<lparr>c_parameters = continuous_of ps\<rparr> ps ee)"

definition param_bounds_comp :: "search_space \<Rightarrow> error + tensor" where
  "param_bounds_comp ss =
     (case d_param_bounds_comp (discrete ss) of
        Inl e \<Rightarrow> Inl e
      | Inr d \<Rightarrow> Inr (hstack d (c_param_bounds_comp (continuous ss))))"

subsection \<open>Reference functions and concrete inputs\<close>

text \<open>
  What clipping at \<open>\<plusminus>1000\<close> does to one tensor entry, stated by cases: an infinite entry
  becomes \<open>\<plusminus>1000\<close>, a finite entry outside \<open>[-1000, 1000]\<close> becomes the nearer end, a
  finite entry inside is kept.
\<close>

fun forced_finite_spec :: "bound \<Rightarrow> bound" where
  "forced_finite_spec NegInf = Fin (- 1000)"
| "forced_finite_spec PosInf = Fin 1000"
| "forced_finite_spec NaN = NaN"
| "forced_finite_spec (Fin x) =
     (if x < - 1000 then Fin (- 1000) else if 1000 < x then Fin 1000 else Fin x)"

definition wide_space :: subspace_continuous where
  "wide_space = \<lparr>c_parameters = [\<lparr>c_name = ''x'', c_bounds = (Fin 0, Fin 5000)\<rparr>]\<rparr>"

definition unit_interval :: subspace_continuous where
  "unit_interval = \<lparr>c_parameters = [\<lparr>c_name = ''x'', c_bounds = (Fin 0, Fin 1)\<rparr>]\<rparr>"

text \<open>Every row of a frame has one cell per column.\<close>

definition wf_frame :: "'a frame \<Rightarrow> bool" where
  "wf_frame f = list_all (\<lambda>lr. length (snd lr) = length (columns f)) (body f)"

text \<open>
  The creation-time constraints in their canonical order, and the rows that survive when
  each in turn drops the rows it reports invalid among those still present.
\<close>

definition creation_constraints :: "string list \<Rightarrow> constraint list option \<Rightarrow> constraint list" where
  "creation_constraints ord constraints =
     (case constraints of
        None \<Rightarrow> []
      | Some cs \<Rightarrow> filter eval_during_creation (sort_key (\<lambda>c. position ord (ctype c)) cs))"

fun surviving_rows :: "constraint list \<Rightarrow> val frame \<Rightarrow> (nat \<times> val list) list" where
  "surviving_rows [] f = body f"
| "surviving_rows (c # cs) f =
     surviving_rows cs (f\<lparr>body := filter (\<lambda>lr. fst lr \<notin> set (get_invalid c f)) (body f)\<rparr>)"

definition known_types :: "string list \<Rightarrow> constraint list option \<Rightarrow> bool" where
  "known_types ord constraints =
     (case constraints of None \<Rightarrow> True | Some cs \<Rightarrow> list_all (\<lambda>c. ctype c \<in> set ord) cs)"

text \<open>A row is a candidate by its three flags and the two switches of \<^verbatim>\<open>get_candidates\<close>.\<close>

definition is_candidate :: "bool \<Rightarrow> bool \<Rightarrow> flags \<Rightarrow> bool" where
  "is_candidate allow_repeated allow_measured f =
     (\<not> dont_recommend f \<and> (allow_repeated \<or> \<not> was_recommended f)
        \<and> (allow_measured \<or> \<not> was_measured f))"

definition candidate_positions :: "subspace_discrete \<Rightarrow> bool \<Rightarrow> bool \<Rightarrow> nat set" where
  "candidate_positions s a b =
     {i. i < length (metadata s) \<and> is_candidate a b (snd (metadata s ! i))}"

text \<open>
  Modelled from the spec: the two parameter kinds used in the examples. A numeric discrete
  parameter has its values as its one computational column and is in range within its
  tolerance of a value; a categorical parameter is one-hot encoded and in range at its
  labels only.
\<close>

definition NumericalDiscreteParameter :: "string \<Rightarrow> real list \<Rightarrow> real \<Rightarrow> discrete_parameter" where
  "NumericalDiscreteParameter n vs tol =
     \<lparr>name = n, is_numeric = True, values_of = map Num vs,
      is_in_range = (\<lambda>v. case v of Num x \<Rightarrow> list_ex (\<lambda>d. \<bar>d - x\<bar> \<le> tol) vs | Cat _ \<Rightarrow> False),
      comp_df = [(n, vs)]\<rparr>"

definition CategoricalParameter :: "string \<Rightarrow> string list \<Rightarrow> discrete_parameter" where
  "CategoricalParameter n ls =
     \<lparr>name = n, is_numeric = False, values_of = map Cat ls,
      is_in_range = (\<lambda>v. v \<in> set (map Cat ls)),
      comp_df = map (\<lambda>l. (n @ ''_'' @ l, map (\<lambda>l'. if l' = l then 1 else 0) ls)) ls\<rparr>"

definition demo_order :: "string list" where
  "demo_order = [''EXCLUDE'', ''DEPENDENCIES'']"

definition exclude_two :: constraint where
  "exclude_two =
     \<lparr>ctype = ''EXCLUDE'', eval_during_creation = True,
      get_invalid = (\<lambda>g. map fst (filter (\<lambda>lr. cell (columns g) (snd lr) ''A'' = Inr (Num 2))
                                     (body g)))\<rparr>"

definition demo_parameters :: "discrete_parameter list" where
  "demo_parameters =
     [NumericalDiscreteParameter ''A'' [1, 2, 3] 0, CategoricalParameter ''B'' [''x'', ''y'']]"

definition flagged_space :: subspace_discrete where
  "flagged_space =
     \<lparr>parameters = [NumericalDiscreteParameter ''A'' [1, 2, 3] 0],
      exp_rep = \<lparr>columns = [''A''], body = [(0, [Num 1]), (1, [Num 2]), (2, [Num 3])]\<rparr>,
      comp_rep = \<lparr>columns = [''A''], body = [(0, [Some 1]), (1, [Some 2]), (2, [Some 3])]\<rparr>,
      metadata = [(0, fresh_flags\<lparr>was_measured := True\<rparr>), (1, fresh_flags),
                  (2, fresh_flags\<lparr>was_recommended := True\<rparr>)],
      empty_encoding = False\<rparr>"

text \<open>The column names that the parameters' encodings produce, in parameter order.\<close>

definition all_comp_columns :: "discrete_parameter list \<Rightarrow> string list" where
  "all_comp_columns ps = concat (map (\<lambda>p. map fst (comp_df p)) ps)"

definition abc_parameters :: "discrete_parameter list" where
  "abc_parameters = [NumericalDiscreteParameter ''A'' [1, 2, 3] 0]"

definition abc_exp_rep :: "val frame" where
  "abc_exp_rep = \<lparr>columns = [''A''], body = [(0, [Num 1]), (1, [Num 2]), (2, [Num 3])]\<rparr>"

definition abc_space :: subspace_discrete where
  "abc_space =
     \<lparr>parameters = abc_parameters, exp_rep = abc_exp_rep,
      comp_rep = \<lparr>columns = [''A''], body = [(0, [Some 1]), (1, [Some 2]), (2, [Some 3])]\<rparr>,
      metadata = [(0, fresh_flags), (1, fresh_flags), (2, fresh_flags)],
      empty_encoding = False\<rparr>"

text \<open>The interleaved example of the bounds, and a hybrid space in empty-encoding mode.\<close>

definition interleaved_parameters :: "parameter list" where
  "interleaved_parameters =
     [Discrete (NumericalDiscreteParameter ''A_disc'' [1, 2, 3] 0),
      Continuous \<lparr>c_name = ''A_cont'', c_bounds = (Fin 4, Fin 6)\<rparr>,
      Discrete (NumericalDiscreteParameter ''B_disc'' [7, 8, 9] 0),
      Continuous \<lparr>c_name = ''B_cont'', c_bounds = (Fin 10, Fin 12)\<rparr>]"

definition hybrid_parameters :: "parameter list" where
  "hybrid_parameters =
     [Discrete (NumericalDiscreteParameter ''A_disc'' [1, 2, 3] 0),
      Continuous \<lparr>c_name = ''A_cont'', c_bounds = (Fin 4, Fin 6)\<rparr>]"

definition hybrid_discrete :: subspace_discrete where
  "hybrid_discrete =
     \<lparr>parameters = discrete_of hybrid_parameters,
      exp_rep = \<lparr>columns = [''A_disc''], body = [(0, [Num 1]), (1, [Num 2]), (2, [Num 3])]\<rparr>,
      comp_rep = \<lparr>columns = [], body = [(0, []), (1, []), (2, [])]\<rparr>,
      metadata = [(0, fresh_flags), (1, fresh_flags), (2, fresh_flags)],
      empty_encoding = True\<rparr>"

definition hybrid_space :: search_space where
  "hybrid_space =
     \<lparr>discrete = hybrid_discrete,
      continuous = \<lparr>c_parameters = continuous_of hybrid_parameters\<rparr>,
      ss_parameters = hybrid_parameters, ss_empty_encoding = True\<rparr>"

text \<open>A hybrid space whose one discrete parameter has a single value.\<close>

definition fixed_parameters :: "parameter list" where
  "fixed_parameters =
     [Discrete (NumericalDiscreteParameter ''A_disc'' [5] 0),
      Continuous \<lparr>c_name = ''A_cont'', c_bounds = (Fin 4, Fin 6)\<rparr>]"

definition fixed_discrete :: subspace_discrete where
  "fixed_discrete =
     \<lparr>parameters = discrete_of fixed_parameters,
      exp_rep = \<lparr>columns = [''A_disc''], body = [(0, [Num 5])]\<rparr>,
      comp_rep = \<lparr>columns = [], body = [(0, [])]\<rparr>,
      metadata = [(0, fresh_flags)],
      empty_encoding = False\<rparr>"

definition fixed_space :: search_space where
  "fixed_space =
     \<lparr>discrete = fixed_discrete,
      continuous = \<lparr>c_parameters = continuous_of fixed_parameters\<rparr>,
      ss_parameters = fixed_parameters, ss_empty_encoding = False\<rparr>"

definition interleaved_discrete :: subspace_discrete where
  "interleaved_discrete =
     \<lparr>parameters = discrete_of interleaved_parameters,
      exp_rep = \<lparr>columns = [''A_disc'', ''B_disc''],
                 body = [(0, [Num 1, Num 7]), (1, [Num 1, Num 8]), (2, [Num 1, Num 9]),
                         (3, [Num 2, Num 7]), (4, [Num 2, Num 8]), (5, [Num 2, Num 9]),
                         (6, [Num 3, Num 7]), (7, [Num 3, Num 8]), (8, [Num 3, Num 9])]\<rparr>,
      comp_rep = \<lparr>columns = [''A_disc'', ''B_disc''],
                  body = [(0, [Some 1, Some 7]), (1, [Some 1, Some 8]), (2, [Some 1, Some 9]),
                          (3, [Some 2, Some 7]), (4, [Some 2, Some 8]), (5, [Some 2, Some 9]),
                          (6, [Some 3, Some 7]), (7, [Some 3, Some 8]), (8, [Some 3, Some 9])]\<rparr>,
      metadata = map (\<lambda>l. (l, fresh_flags)) [0, 1, 2, 3, 4, 5, 6, 7, 8],
      empty_encoding = False\<rparr>"

definition interleaved_space :: search_space where
  "interleaved_space =
     \<lparr>discrete = interleaved_discrete,
      continuous = \<lparr>c_parameters = continuous_of interleaved_parameters\<rparr>,
      ss_parameters = interleaved_parameters, ss_empty_encoding = False\<rparr>"

text \<open>The cell of a row under a column name, and the number in a numeric cell.\<close>

definition value_of :: "string list \<Rightarrow> 'a list \<Rightarrow> string \<Rightarrow> 'a" where
  "value_of cols r c = r ! position cols c"

definition is_num :: "val \<Rightarrow> bool" where
  "is_num v = (case v of Num _ \<Rightarrow> True | Cat _ \<Rightarrow> False)"

definition the_num :: "val \<Rightarrow> real" where
  "the_num v = (case v of Num x \<Rightarrow> x | Cat _ \<Rightarrow> 0)"

text \<open>
  The validation of a measurement frame in the words of the specification: a parameter
  without a column is an error; otherwise the first row that holds a value outside the
  domain of a parameter, numeric parameters counting only under the tolerance flag, is
  reported with its label and the name of the first such parameter.
\<close>

definition offending :: "bool \<Rightarrow> string list \<Rightarrow> val list \<Rightarrow> discrete_parameter \<Rightarrow> bool" where
  "offending must cols r p =
     ((\<not> is_numeric p \<or> must) \<and> \<not> is_in_range p (value_of cols r (name p)))"

definition row_error ::
  "bool \<Rightarrow> string list \<Rightarrow> discrete_parameter list \<Rightarrow> nat \<times> val list \<Rightarrow> error option" where
  "row_error must cols ps lr =
     (case find (offending must cols (snd lr)) ps of
        None \<Rightarrow> None
      | Some p \<Rightarrow> Some (InvalidValue (fst lr) (name p)))"

fun first_error :: "('a \<Rightarrow> error option) \<Rightarrow> 'a list \<Rightarrow> error option" where
  "first_error f [] = None"
| "first_error f (x # xs) = (case f x of Some e \<Rightarrow> Some e | None \<Rightarrow> first_error f xs)"

definition validation_error :: "subspace_discrete \<Rightarrow> val frame \<Rightarrow> bool \<Rightarrow> error option" where
  "validation_error s df must =
     (if \<not> list_all (\<lambda>p. name p \<in> set (columns df)) (parameters s) then Some MissingColumns
      else first_error (row_error must (columns df) (parameters s)) (body df))"

text \<open>
  The rows a measurement matches: equal on every categorical column, and on every numeric
  column at the least absolute deviation that any row of the search space has there.
\<close>

definition deviation ::
  "(real \<Rightarrow> real \<Rightarrow> 'd::linorder) \<Rightarrow> subspace_discrete \<Rightarrow> string list \<Rightarrow> val list \<Rightarrow> string
     \<Rightarrow> val list \<Rightarrow> 'd" where
  "deviation absdiff s cols r c e =
     absdiff (the_num (value_of (columns (exp_rep s)) e c)) (the_num (value_of cols r c))"

definition closest ::
  "(real \<Rightarrow> real \<Rightarrow> 'd::linorder) \<Rightarrow> subspace_discrete \<Rightarrow> string list \<Rightarrow> val list
     \<Rightarrow> val list \<Rightarrow> bool" where
  "closest absdiff s cols r e =
     (list_all (\<lambda>c. value_of (columns (exp_rep s)) e c = value_of cols r c)
        (cat_cols (parameters s))
      \<and> list_all (\<lambda>c. list_all (\<lambda>lr'. deviation absdiff s cols r c e
                                         \<le> deviation absdiff s cols r c (snd lr'))
                         (body (exp_rep s)))
          (num_cols (parameters s)))"

definition matches ::
  "(real \<Rightarrow> real \<Rightarrow> 'd::linorder) \<Rightarrow> subspace_discrete \<Rightarrow> string list \<Rightarrow> val list
     \<Rightarrow> nat list" where
  "matches absdiff s cols r =
     map fst (filter (\<lambda>lr. closest absdiff s cols r (snd lr)) (body (exp_rep s)))"

definition recorded_indices ::
  "(real \<Rightarrow> real \<Rightarrow> 'd::linorder) \<Rightarrow> subspace_discrete \<Rightarrow> val frame \<Rightarrow> nat list" where
  "recorded_indices absdiff s df =
     concat (map (\<lambda>lr. take 1 (matches absdiff s (columns df) (snd lr))) (body df))"

text \<open>
  What the theorems on matching assume of a subspace and of a measurement frame: rows as
  long as the header, the columns of \<open>exp_rep\<close> named after the parameters, one index for
  \<open>exp_rep\<close> and the metadata, and numbers in the columns of numeric parameters.
\<close>

definition numeric_cells :: "discrete_parameter list \<Rightarrow> val frame \<Rightarrow> bool" where
  "numeric_cells ps f =
     list_all (\<lambda>c. c \<in> set (columns f) \<longrightarrow>
                   list_all (\<lambda>lr. is_num (value_of (columns f) (snd lr) c)) (body f))
       (num_cols ps)"

definition well_formed :: "subspace_discrete \<Rightarrow> bool" where
  "well_formed s =
     (wf_frame (exp_rep s) \<and> columns (exp_rep s) = map name (parameters s)
      \<and> map fst (metadata s) = index (exp_rep s)
      \<and> numeric_cells (parameters s) (exp_rep s))"

definition well_typed :: "subspace_discrete \<Rightarrow> val frame \<Rightarrow> bool" where
  "well_typed s df = (wf_frame df \<and> numeric_cells (parameters s) df)"


text \<open>The metadata with \<open>was_measured\<close> set in the rows of the given labels.\<close>

definition set_flags :: "nat list \<Rightarrow> (nat \<times> flags) list \<Rightarrow> (nat \<times> flags) list" where
  "set_flags inds md =
     map (\<lambda>lf. if fst lf \<in> set inds then (fst lf, (snd lf)\<lparr>was_measured := True\<rparr>) else lf) md"

text \<open>Between two metadata tables nothing changed but \<open>was_measured\<close>, and that only upwards.\<close>

definition only_measured_set :: "(nat \<times> flags) list \<Rightarrow> (nat \<times> flags) list \<Rightarrow> bool" where
  "only_measured_set md md' =
     list_all2 (\<lambda>lf lf'. fst lf' = fst lf
                  \<and> was_recommended (snd lf') = was_recommended (snd lf)
                  \<and> dont_recommend (snd lf') = dont_recommend (snd lf)
                  \<and> (was_measured (snd lf) \<longrightarrow> was_measured (snd lf'))) md md'"

text \<open>
  The deviation without rounding. On the small whole numbers of the examples below the
  floating-point subtraction is exact, so there this is what the code computes.
\<close>

definition exact_absdiff :: "real \<Rightarrow> real \<Rightarrow> real" where
  "exact_absdiff y x = \<bar>y - x\<bar>"

text \<open>
  A space with the values \<open>0\<close> and \<open>1\<close> and a measurement so large that the floating-point
  deviations of both rows round to the same number.
\<close>

definition binary_space :: subspace_discrete where
  "binary_space =
     \<lparr>parameters = [NumericalDiscreteParameter ''N'' [0, 1] 0],
      exp_rep = \<lparr>columns = [''N''], body = [(0, [Num 0]), (1, [Num 1])]\<rparr>,
      comp_rep = \<lparr>columns = [''N''], body = [(0, [Some 0]), (1, [Some 1])]\<rparr>,
      metadata = [(0, fresh_flags), (1, fresh_flags)],
      empty_encoding = False\<rparr>"

definition huge_measurement :: "val frame" where
  "huge_measurement = \<lparr>columns = [''N''], body = [(0, [Num (10 ^ 17)])]\<rparr>"

text \<open>A constrained space that lacks the combinations \<open>(a, 2)\<close> and \<open>(b, 1)\<close>, and measurements.\<close>

definition gap_parameters :: "discrete_parameter list" where
  "gap_parameters =
     [CategoricalParameter ''C'' [''a'', ''b''], NumericalDiscreteParameter ''N'' [1, 2] 0]"

definition gap_space :: subspace_discrete where
  "gap_space =
     \<lparr>parameters = gap_parameters,
      exp_rep = \<lparr>columns = [''C'', ''N''],
                 body = [(0, [Cat ''a'', Num 1]), (1, [Cat ''b'', Num 2])]\<rparr>,
      comp_rep = \<lparr>columns = [''C_a'', ''C_b'', ''N''],
                  body = [(0, [Some 1, Some 0, Some 1]), (1, [Some 0, Some 1, Some 2])]\<rparr>,
      metadata = [(0, fresh_flags), (1, fresh_flags)],
      empty_encoding = False\<rparr>"

definition bad_measurements :: "val frame" where
  "bad_measurements =
     \<lparr>columns = [''C'', ''N''], body = [(0, [Cat ''a'', Num 1]), (1, [Cat ''z'', Num 1])]\<rparr>"

definition near_measurement :: "val frame" where
  "near_measurement = \<lparr>columns = [''C'', ''N''], body = [(0, [Cat ''a'', Num 2])]\<rparr>"

definition far_measurement :: "val frame" where
  "far_measurement = \<lparr>columns = [''N'', ''C''], body = [(5, [Num 9, Cat ''b''])]\<rparr>"

definition partial_measurement :: "val frame" where
  "partial_measurement = \<lparr>columns = [''C''], body = [(0, [Cat ''a''])]\<rparr>"

subsection \<open>Serialization\<close>

text \<open>
  \<^verbatim>\<open>cattrs.unstructure\<close> turns an object into a dictionary with one entry per attribute, the
  attributes without \<^verbatim>\<open>init\<close> included. The conversion of the values themselves (frames,
  parameters) is done by hooks outside the sources at hand and is taken to be lossless, so a
  dictionary entry holds the value as it is. The dictionary of the discrete subspace is an
  association list, since the structuring hook works on its keys; the outer dictionary has
  the four attributes of the search space.
\<close>

datatype dict_value =
    ParametersD "discrete_parameter list"
  | FrameD "val frame"
  | CompD "real option frame"
  | MetadataD "(nat \<times> flags) list"
  | BoolD bool

type_synonym dict = "(string \<times> dict_value) list"

record search_space_dict =
  d_discrete :: dict
  d_continuous :: subspace_continuous
  d_parameters :: "parameter list"
  d_empty_encoding :: bool

definition unstructure_discrete :: "subspace_discrete \<Rightarrow> dict" where
  "unstructure_discrete s =
     [(''parameters'', ParametersD (parameters s)), (''exp_rep'', FrameD (exp_rep s)),
      (''comp_rep'', CompD (comp_rep s)), (''metadata'', MetadataD (metadata s)),
      (''empty_encoding'', BoolD (empty_encoding s))]"

definition to_dict :: "search_space \<Rightarrow> search_space_dict" where
  "to_dict ss =
     \<lparr>d_discrete = unstructure_discrete (discrete ss), d_continuous = continuous ss,
      d_parameters = ss_parameters ss, d_empty_encoding = ss_empty_encoding ss\<rparr>"

text \<open>\<^verbatim>\<open>dict_.pop(key)\<close> without a default: a \<^verbatim>\<open>KeyError\<close> for a key that is absent.\<close>

definition pop :: "dict \<Rightarrow> string \<Rightarrow> error + dict" where
  "pop d k =
     (case map_of d k of
        None \<Rightarrow> Inl (KeyError k)
      | Some _ \<Rightarrow> Inr (filter (\<lambda>kv. fst kv \<noteq> k) d))"

text \<open>
  \<^verbatim>\<open>cattrs.structure_attrs_fromdict\<close> calls the constructor with the entries of the remaining
  keys; \<^verbatim>\<open>empty_encoding\<close> has a default.
\<close>

definition structure_attrs_fromdict :: "dict \<Rightarrow> error + subspace_discrete" where
  "structure_attrs_fromdict d =
     (case map_of d ''parameters'' of
        Some (ParametersD ps) \<Rightarrow>
          (case map_of d ''exp_rep'' of
             Some (FrameD erep) \<Rightarrow>
               SubspaceDiscrete ps erep
                 (case map_of d ''empty_encoding'' of Some (BoolD b) \<Rightarrow> b | _ \<Rightarrow> False)
           | Some _ \<Rightarrow> Inl TypeError
           | None \<Rightarrow> Inl (KeyError ''exp_rep''))
      | Some _ \<Rightarrow> Inl TypeError
      | None \<Rightarrow> Inl (KeyError ''parameters''))"

definition structure_hook :: "dict \<Rightarrow> error + subspace_discrete" where
  "structure_hook d =
     (case pop d ''comp_rep'' of
        Inl e \<Rightarrow> Inl e
      | Inr d1 \<Rightarrow>
          (case pop d1 ''metadata'' of
             Inl e \<Rightarrow> Inl e
           | Inr d2 \<Rightarrow> structure_attrs_fromdict d2))"

definition from_dict :: "search_space_dict \<Rightarrow> error + search_space" where
  "from_dict d =
     (case structure_hook (d_discrete d) of
        Inl e \<Rightarrow> Inl e
      | Inr disc \<Rightarrow> SearchSpace disc (d_continuous d) (d_parameters d) (d_empty_encoding d))"

text \<open>The constrained space as a search space, fresh and with one row measured.\<close>

definition gap_search_space :: search_space where
  "gap_search_space =
     \<lparr>discrete = gap_space, continuous = \<lparr>c_parameters = []\<rparr>,
      ss_parameters = map Discrete gap_parameters, ss_empty_encoding = False\<rparr>"

definition measured_search_space :: search_space where
  "measured_search_space =
     gap_search_space
       \<lparr>discrete := gap_space\<lparr>metadata := [(0, fresh_flags\<lparr>was_measured := True\<rparr>),
                                            (1, fresh_flags)]\<rparr>\<rparr>"

text \<open>
  Parameters as the parameter classes build them: names are unique, and the values of a
  numeric parameter are numbers. The constraint that leaves the constrained space.
\<close>

definition typed_parameters :: "discrete_parameter list \<Rightarrow> bool" where
  "typed_parameters ps =
     (distinct (map name ps)
      \<and> list_all (\<lambda>p. is_numeric p \<longrightarrow> list_all is_num (values_of p)) ps)"

definition gap_constraint :: constraint where
  "gap_constraint =
     \<lparr>ctype = ''EXCLUDE'', eval_during_creation = True,
      get_invalid = (\<lambda>g. map fst (filter (\<lambda>lr. snd lr = [Cat ''a'', Num 2]
                                              \<or> snd lr = [Cat ''b'', Num 1]) (body g)))\<rparr>"

section \<open>Properties\<close>

subsection \<open>Continuous subspace: bounds and the full factorial\<close>

lemma clip1_spec:
  "clip1 (- INF_BOUNDS_REPLACEMENT) INF_BOUNDS_REPLACEMENT b = forced_finite_spec b"
  by (cases b) (simp_all add: clip1_def bound_max_def bound_min_def INF_BOUNDS_REPLACEMENT_def)

text \<open>
  What \<^verbatim>\<open>bounds_forced_finite\<close> computes: a new matrix of the shape of
  \<^verbatim>\<open>param_bounds_comp\<close> in which every entry is clamped to \<open>[-1000, 1000]\<close>. An infinite
  bound becomes \<open>\<plusminus>1000\<close> and a finite bound within \<open>[-1000, 1000]\<close> is returned unchanged,
  as documented; a finite bound of larger magnitude is replaced by \<open>\<plusminus>1000\<close> as well.
\<close>

lemma bounds_forced_finite_clamps:
  "bounds_forced_finite s = map (map forced_finite_spec) (c_param_bounds_comp s)"
  by (simp add: bounds_forced_finite_def clip_def clip1_spec)

text \<open>
  Claim C8. The claim, like the docstring of \<^verbatim>\<open>bounds_forced_finite\<close> (``infinite values
  are clipped''), the name \<^verbatim>\<open>INF_BOUNDS_REPLACEMENT\<close> and the warning of
  \<^verbatim>\<open>full_factorial\<close>, has only the infinite bounds replaced and every finite bound
  returned unchanged. The code clips every entry: the declared upper bound \<open>5000\<close> is
  finite, and it is returned as \<open>1000\<close>.
\<close>

theorem finite_bound_changed:
  "c_param_bounds_comp wide_space ! 1 ! 0 = Fin 5000 \<and>
   bounds_forced_finite wide_space ! 1 ! 0 = Fin 1000"
  by (simp add: wide_space_def bounds_forced_finite_def clip_def clip1_def bound_max_def
      bound_min_def INF_BOUNDS_REPLACEMENT_def c_param_bounds_comp_def)

lemma numel_is_fully_bounded:
  "length (concat (is_fully_bounded s)) = 2 * length (c_parameters s)"
  by (simp add: is_fully_bounded_def c_param_bounds_comp_def)

lemma case_not_single:
  "length xs \<noteq> 1 \<Longrightarrow> (case xs of [] \<Rightarrow> e | [b] \<Rightarrow> f b | _ # _ # _ \<Rightarrow> e) = e"
  by (cases xs; cases "tl xs") auto

lemma tensor_bool_is_fully_bounded:
  "tensor_bool (is_fully_bounded s) = Inl AmbiguousTruthValue"
proof -
  have "length (concat (is_fully_bounded s)) \<noteq> 1"
    using numel_is_fully_bounded [of s] by presburger
  then show ?thesis
    unfolding tensor_bool_def by (rule case_not_single)
qed

text \<open>
  Claim C7. The claim promises that \<^verbatim>\<open>samples_full_factorial\<close> returns \<open>n\<close> rows whenever
  \<open>n \<le> 2 ^ k\<close>. The code never gets there: \<^verbatim>\<open>full_factorial\<close> takes the truth value of the
  \<open>2 \<times> k\<close> tensor \<^verbatim>\<open>is_fully_bounded\<close>, which has \<open>2 * k\<close> elements and never exactly one,
  so every call ends in the \<^verbatim>\<open>RuntimeError\<close>, whatever the subspace, the count and the
  random draw.
\<close>

theorem samples_full_factorial_raises:
  "samples_full_factorial s n pick = Inl AmbiguousTruthValue"
  by (simp add: samples_full_factorial_def full_factorial_def tensor_bool_is_fully_bounded)

text \<open>
  The enumeration behind the guard is the one the claim describes: \<open>2 ^ k\<close> corner rows, for
  the unit interval the two rows \<open>0\<close> and \<open>1\<close>.
\<close>

lemma transpose_pair:
  "length xs = length ys \<Longrightarrow> transpose [xs, ys] = map (\<lambda>(x, y). [x, y]) (zip xs ys)"
  by (induction xs ys rule: list_induct2) simp_all

lemma length_product_lists: "length (product_lists xss) = prod_list (map length xss)"
  by (induction xss) (simp_all add: length_concat comp_def sum_list_triv)

lemma corner_count: "length (corner_rows s) = 2 ^ length (c_parameters s)"
  by (simp add: corner_rows_def bounds_forced_finite_def clip_def c_param_bounds_comp_def
      transpose_pair length_product_lists comp_def split_def map_replicate_const
      numeral_2_eq_2 del: transpose.simps)

lemma corner_rows_unit_interval: "corner_rows unit_interval = [[Fin 0], [Fin 1]]"
  by (simp add: corner_rows_def unit_interval_def bounds_forced_finite_def clip_def clip1_def
      bound_max_def bound_min_def INF_BOUNDS_REPLACEMENT_def c_param_bounds_comp_def)

subsection \<open>Frames and the constructor\<close>

lemma position_less: "k \<in> set ks \<Longrightarrow> position ks k < length ks"
  unfolding position_def by (induction ks) auto

lemma nth_position: "k \<in> set ks \<Longrightarrow> ks ! position ks k = k"
  unfolding position_def by (induction ks) auto

lemma get_column_ok:
  assumes "wf_frame f" and "c \<in> set (columns f)"
  shows "get_column f c = Inr (map (\<lambda>lr. (fst lr, snd lr ! position (columns f) c)) (body f))"
  using assms position_less [of c "columns f"]
  by (auto simp: get_column_def wf_frame_def list_all_iff)

lemma index_transform_rep: "index (transform_rep_exp2comp p series) = map fst series"
  by (simp add: index_def transform_rep_exp2comp_def comp_def)

lemma encode_columns_ok:
  assumes "wf_frame f" and "set (map name ps) \<subseteq> set (columns f)"
  shows "\<exists>dfs. encode_columns ps f = Inr dfs \<and> length dfs = length ps
            \<and> map columns dfs = map (\<lambda>p. map fst (comp_df p)) ps
            \<and> (\<forall>d \<in> set dfs. index d = index f)"
  using assms(2)
proof (induction ps)
  case Nil
  then show ?case by simp
next
  case (Cons p ps)
  then obtain dfs where dfs: "encode_columns ps f = Inr dfs" "length dfs = length ps"
    "map columns dfs = map (\<lambda>p. map fst (comp_df p)) ps" "\<forall>d \<in> set dfs. index d = index f"
    by auto
  have "name p \<in> set (columns f)" using Cons.prems by simp
  from get_column_ok [OF assms(1) this] dfs show ?case
    by (simp add: index_transform_rep comp_def) (simp add: index_def transform_rep_exp2comp_def)
qed

lemma index_hjoin: "index f = index g \<Longrightarrow> index (hjoin f g) = index f"
proof -
  assume a: "index f = index g"
  then have len: "length (body f) = length (body g)"
    by (metis index_def length_map)
  have "map fst (map (\<lambda>(lr, lr'). (fst lr, snd lr @ snd lr')) (zip xs ys)) = map fst xs"
    if "length xs = length ys" for xs :: "(nat \<times> 'a list) list" and ys :: "(nat \<times> 'a list) list"
    using that by (induction xs ys rule: list_induct2) simp_all
  from this [OF len] show ?thesis by (simp add: index_def hjoin_def)
qed

lemma concat_axis1_index:
  "dfs \<noteq> [] \<Longrightarrow> \<forall>d \<in> set dfs. index d = ix \<Longrightarrow> index (concat_axis1 dfs) = ix"
proof (induction dfs rule: concat_axis1.induct)
  case 1
  then show ?case by simp
next
  case (2 f)
  then show ?case by simp
next
  case (3 f g fs)
  then have "index (concat_axis1 (g # fs)) = ix" by simp
  moreover have "index f = ix" using 3 by simp
  ultimately show ?case using index_hjoin [of f "concat_axis1 (g # fs)"] by simp
qed

lemma concat_axis1_columns: "columns (concat_axis1 dfs) = concat (map columns dfs)"
  by (induction dfs rule: concat_axis1.induct) (simp_all add: empty_frame_def hjoin_def)

lemma index_drop_single: "index (df_drop_single_value_columns f) = index f"
  by (simp add: df_drop_single_value_columns_def index_def Let_def comp_def)

lemma transform_with_None:
  assumes "wf_frame f" and "set (map name ps) \<subseteq> set (columns f)"
    and "ps \<noteq> [] \<or> body f = []"
  shows "\<exists>crep. transform_with ps ee None f = Inr crep \<and> index crep = index f"
proof (cases "ee \<or> length (body f) < 1")
  case True
  then show ?thesis by (simp add: transform_with_def index_def comp_def)
next
  case False
  with assms(3) have ne: "ps \<noteq> []" by auto
  from encode_columns_ok [OF assms(1,2)] obtain dfs where
    dfs: "encode_columns ps f = Inr dfs" "length dfs = length ps"
    "\<forall>d \<in> set dfs. index d = index f"
    by blast
  from dfs(2) ne have "dfs \<noteq> []" by auto
  from concat_axis1_index [OF this dfs(3)] dfs(1) False show ?thesis
    by (simp add: transform_with_def)
qed

lemma SubspaceDiscrete_ok:
  assumes "wf_frame f" and "set (map name ps) \<subseteq> set (columns f)"
    and "ps \<noteq> [] \<or> body f = []"
  shows "\<exists>s. SubspaceDiscrete ps f ee = Inr s \<and> parameters s = ps \<and> exp_rep s = f
            \<and> empty_encoding s = ee \<and> index (comp_rep s) = index f
            \<and> metadata s = map (\<lambda>l. (l, fresh_flags)) (index f)"
proof -
  from transform_with_None [OF assms] obtain crep where
    "transform_with ps ee None f = Inr crep" "index crep = index f"
    by blast
  then show ?thesis by (simp add: SubspaceDiscrete_def index_drop_single)
qed

subsection \<open>Creation of the discrete subspace\<close>

lemma drop_index_ok:
  "set inds \<subseteq> set (index f) \<Longrightarrow>
   drop_index f inds = Inr (f\<lparr>body := filter (\<lambda>lr. fst lr \<notin> set inds) (body f)\<rparr>)"
proof -
  assume "set inds \<subseteq> set (index f)"
  then have "filter (\<lambda>l. l \<notin> set (index f)) inds = []"
    by (auto simp: filter_empty_conv)
  then show ?thesis by (simp add: drop_index_def)
qed

lemma remove_invalid_ok:
  "\<forall>c \<in> set cs. \<forall>g. set (get_invalid c g) \<subseteq> set (index g) \<Longrightarrow>
   remove_invalid cs f = Inr (f\<lparr>body := surviving_rows cs f\<rparr>)"
proof (induction cs arbitrary: f)
  case Nil
  then show ?case by simp
next
  case (Cons c cs)
  have "set (get_invalid c f) \<subseteq> set (index f)" using Cons.prems by simp
  from drop_index_ok [OF this] Cons show ?case by simp
qed

lemma surviving_rows_subset: "set (surviving_rows cs f) \<subseteq> set (body f)"
proof (induction cs arbitrary: f)
  case Nil
  then show ?case by simp
next
  case (Cons c cs)
  from Cons [of "f\<lparr>body := filter (\<lambda>lr. fst lr \<notin> set (get_invalid c f)) (body f)\<rparr>"]
  show ?case by auto
qed

lemma sort_constraints_ok:
  "list_all (\<lambda>c. ctype c \<in> set ord) cs \<Longrightarrow>
   sort_constraints ord cs = Inr (sort_key (\<lambda>c. position ord (ctype c)) cs)"
proof -
  assume "list_all (\<lambda>c. ctype c \<in> set ord) cs"
  then have "filter (\<lambda>c. ctype c \<notin> set ord) cs = []"
    by (auto simp: filter_empty_conv list_all_iff)
  then show ?thesis by (simp add: sort_constraints_def)
qed

lemma wf_product: "wf_frame (parameter_cartesian_prod_to_df ps)"
proof -
  have "length xs = length ps" if "xs \<in> set (product_lists (map values_of ps))" for xs
    using in_set_product_lists_length [OF that] by simp
  then have "\<forall>lr \<in> set (enumerate 0 (product_lists (map values_of ps))).
      length (snd lr) = length ps"
    by (auto simp: in_set_enumerate_eq)
  then show ?thesis
    by (simp add: wf_frame_def parameter_cartesian_prod_to_df_def empty_frame_def list_all_iff)
qed

lemma wf_reset_survivors:
  assumes "wf_frame f"
  shows "wf_frame (reset_index (f\<lparr>body := surviving_rows cs f\<rparr>))"
proof -
  have "\<forall>lr \<in> set (surviving_rows cs f). length (snd lr) = length (columns f)"
    using assms surviving_rows_subset [of cs f] by (auto simp: wf_frame_def list_all_iff)
  then show ?thesis
    by (auto simp: wf_frame_def reset_index_def list_all_iff in_set_enumerate_eq)
qed

lemma creation_respects:
  assumes "known_types ord constraints"
  shows "(case constraints of None \<Rightarrow> Inr [] | Some cs \<Rightarrow> sort_constraints ord cs)
         = Inr (case constraints of None \<Rightarrow> []
                 | Some cs \<Rightarrow> sort_key (\<lambda>c. position ord (ctype c)) cs)"
  using assms by (cases constraints) (simp_all add: known_types_def sort_constraints_ok)

text \<open>
  Claim C1. With constraint types that are listed in the canonical order and constraints that
  report labels of the frame they are given, \<^verbatim>\<open>SubspaceDiscrete.create\<close> succeeds; the rows
  of \<open>exp_rep\<close> are exactly the rows of the Cartesian product of the value domains that
  survive the creation-time constraints, applied one after the other in canonical order to
  the rows still present, and they are labelled \<open>0, 1, ...\<close>; \<open>comp_rep\<close> and \<open>metadata\<close> have
  the index and the number of rows of \<open>exp_rep\<close>, and all three flags are \<open>False\<close> in
  every row.
\<close>

theorem create_filtered_product:
  assumes "known_types ord constraints"
    and "\<forall>c \<in> set (creation_constraints ord constraints).
           \<forall>g. set (get_invalid c g) \<subseteq> set (index g)"
  shows "\<exists>s. create ord ps constraints ee = Inr s
           \<and> parameters s = ps \<and> empty_encoding s = ee
           \<and> columns (exp_rep s) = columns (parameter_cartesian_prod_to_df ps)
           \<and> body (exp_rep s) =
               enumerate 0 (map snd (surviving_rows (creation_constraints ord constraints)
                                       (parameter_cartesian_prod_to_df ps)))
           \<and> index (comp_rep s) = index (exp_rep s)
           \<and> length (body (comp_rep s)) = length (body (exp_rep s))
           \<and> metadata s = map (\<lambda>l. (l, fresh_flags)) (index (exp_rep s))"
proof -
  let ?cs = "creation_constraints ord constraints"
  let ?p = "parameter_cartesian_prod_to_df ps"
  let ?f = "reset_index (?p\<lparr>body := surviving_rows ?cs ?p\<rparr>)"
  have cs: "filter eval_during_creation
              (case constraints of None \<Rightarrow> []
               | Some cs \<Rightarrow> sort_key (\<lambda>c. position ord (ctype c)) cs) = ?cs"
    by (cases constraints) (simp_all add: creation_constraints_def)
  have step: "create ord ps constraints ee = SubspaceDiscrete ps ?f ee"
    by (simp add: create_def creation_respects [OF assms(1)] cs remove_invalid_ok [OF assms(2)])
  have wf: "wf_frame ?f" by (rule wf_reset_survivors [OF wf_product])
  have cols: "set (map name ps) \<subseteq> set (columns ?f)"
    by (simp add: reset_index_def parameter_cartesian_prod_to_df_def)
  have "body ?p = []" if "ps = []"
    using that by (simp add: parameter_cartesian_prod_to_df_def empty_frame_def)
  then have "surviving_rows ?cs ?p = []" if "ps = []"
    using that surviving_rows_subset [of ?cs ?p] by auto
  then have ne: "ps \<noteq> [] \<or> body ?f = []"
    by (auto simp: reset_index_def)
  from SubspaceDiscrete_ok [OF wf cols ne, of ee] obtain s where
    s: "SubspaceDiscrete ps ?f ee = Inr s" "parameters s = ps" "exp_rep s = ?f"
    "empty_encoding s = ee" "index (comp_rep s) = index ?f"
    "metadata s = map (\<lambda>l. (l, fresh_flags)) (index ?f)"
    by blast
  have len: "length (body (comp_rep s)) = length (body (exp_rep s))"
    using s(3,5) by (metis index_def length_map)
  show ?thesis
    using step s len by (simp add: reset_index_def)
qed

lemma exclude_two_labels: "set (get_invalid exclude_two g) \<subseteq> set (index g)"
  by (auto simp: exclude_two_def index_def)

lemma demo_product:
  "parameter_cartesian_prod_to_df demo_parameters =
     \<lparr>columns = [''A'', ''B''],
      body = [(0, [Num 1, Cat ''x'']), (1, [Num 1, Cat ''y'']), (2, [Num 2, Cat ''x'']),
              (3, [Num 2, Cat ''y'']), (4, [Num 3, Cat ''x'']), (5, [Num 3, Cat ''y''])]\<rparr>"
  by (simp add: parameter_cartesian_prod_to_df_def demo_parameters_def
      NumericalDiscreteParameter_def CategoricalParameter_def)

lemma demo_creation: "creation_constraints demo_order (Some [exclude_two]) = [exclude_two]"
  by (simp add: creation_constraints_def exclude_two_def)

lemma demo_survivors:
  "surviving_rows [exclude_two] (parameter_cartesian_prod_to_df demo_parameters) =
     [(0, [Num 1, Cat ''x'']), (1, [Num 1, Cat ''y'']),
      (4, [Num 3, Cat ''x'']), (5, [Num 3, Cat ''y''])]"
  by (simp add: demo_product exclude_two_def cell_def position_def)

theorem create_filtered_product_witness:
  "\<exists>s. create demo_order demo_parameters (Some [exclude_two]) False = Inr s
     \<and> exp_rep s = \<lparr>columns = [''A'', ''B''],
                     body = [(0, [Num 1, Cat ''x'']), (1, [Num 1, Cat ''y'']),
                             (2, [Num 3, Cat ''x'']), (3, [Num 3, Cat ''y''])]\<rparr>
     \<and> length (body (comp_rep s)) = 4
     \<and> metadata s = [(0, fresh_flags), (1, fresh_flags), (2, fresh_flags), (3, fresh_flags)]"
proof -
  have k: "known_types demo_order (Some [exclude_two])"
    by (simp add: known_types_def demo_order_def exclude_two_def)
  have r: "\<forall>c \<in> set (creation_constraints demo_order (Some [exclude_two])).
             \<forall>g. set (get_invalid c g) \<subseteq> set (index g)"
    by (simp add: demo_creation exclude_two_labels)
  from create_filtered_product [OF k r, of demo_parameters False] obtain s where
    s: "create demo_order demo_parameters (Some [exclude_two]) False = Inr s"
    "columns (exp_rep s) = columns (parameter_cartesian_prod_to_df demo_parameters)"
    "body (exp_rep s) =
       enumerate 0 (map snd (surviving_rows (creation_constraints demo_order (Some [exclude_two]))
                               (parameter_cartesian_prod_to_df demo_parameters)))"
    "length (body (comp_rep s)) = length (body (exp_rep s))"
    "metadata s = map (\<lambda>l. (l, fresh_flags)) (index (exp_rep s))"
    by blast
  have b: "body (exp_rep s) = [(0, [Num 1, Cat ''x'']), (1, [Num 1, Cat ''y'']),
                             (2, [Num 3, Cat ''x'']), (3, [Num 3, Cat ''y''])]"
    using s(3) unfolding demo_creation demo_survivors by simp
  have c: "columns (exp_rep s) = [''A'', ''B'']"
    using s(2) by (simp add: demo_product)
  have "exp_rep s = \<lparr>columns = [''A'', ''B''],
                     body = [(0, [Num 1, Cat ''x'']), (1, [Num 1, Cat ''y'']),
                             (2, [Num 3, Cat ''x'']), (3, [Num 3, Cat ''y''])]\<rparr>"
    using b c by (cases "exp_rep s") simp
  with s(1,4,5) b show ?thesis by (simp add: index_def)
qed

subsection \<open>Candidates\<close>

lemma filter_zip_nths:
  "length xs = length bs \<Longrightarrow>
   map fst (filter snd (zip xs bs)) = nths xs {i. i < length bs \<and> bs ! i}"
proof (induction xs bs rule: list_induct2)
  case Nil
  then show ?case by simp
next
  case (Cons x xs b bs)
  have "{j. Suc j < Suc (length bs) \<and> (b # bs) ! Suc j} = {i. i < length bs \<and> bs ! i}"
    by auto
  with Cons show ?case by (simp add: nths_Cons)
qed

lemma loc_mask_same_index:
  assumes "map fst sel = index f"
  shows "loc_mask f sel = Inr (f\<lparr>body := nths (body f) {i. i < length sel \<and> snd (sel ! i)}\<rparr>)"
proof -
  have len: "length (body f) = length (map snd sel)"
    using assms by (metis index_def length_map)
  have "{i. i < length (map snd sel) \<and> map snd sel ! i} = {i. i < length sel \<and> snd (sel ! i)}"
    by auto
  with filter_zip_nths [OF len] show ?thesis
    using assms by (simp add: loc_mask_def)
qed

lemma keep_positions:
  "{i. i < length (map (\<lambda>lb. (fst lb, \<not> snd lb)) (mask_todrop s a b)) \<and>
        snd (map (\<lambda>lb. (fst lb, \<not> snd lb)) (mask_todrop s a b) ! i)}
   = candidate_positions s a b"
  by (auto simp: mask_todrop_def candidate_positions_def is_candidate_def)

lemma keep_labels:
  "map fst (map (\<lambda>lb. (fst lb, \<not> snd lb)) (mask_todrop s a b)) = map fst (metadata s)"
  by (simp add: mask_todrop_def comp_def)

text \<open>
  Claim C3. For a subspace whose three tables share one index, \<^verbatim>\<open>get_candidates\<close> returns
  the rows of \<open>exp_rep\<close> and of \<open>comp_rep\<close> at one and the same set of positions, in their
  order: the positions whose \<open>dont_recommend\<close> flag is \<open>False\<close>, whose \<open>was_recommended\<close> flag is
  \<open>False\<close> unless repetitions are allowed, and whose \<open>was_measured\<close> flag is \<open>False\<close> unless
  measured rows are allowed.
\<close>

theorem get_candidates_selects:
  assumes "map fst (metadata s) = index (exp_rep s)"
    and "index (comp_rep s) = index (exp_rep s)"
  shows "get_candidates s a b =
           Inr ((exp_rep s)\<lparr>body := nths (body (exp_rep s)) (candidate_positions s a b)\<rparr>,
                (comp_rep s)\<lparr>body := nths (body (comp_rep s)) (candidate_positions s a b)\<rparr>)"
proof -
  let ?keep = "map (\<lambda>lb. (fst lb, \<not> snd lb)) (mask_todrop s a b)"
  have e: "map fst ?keep = index (exp_rep s)"
    using assms(1) keep_labels [of s a b] by simp
  have c: "map fst ?keep = index (comp_rep s)"
    using assms keep_labels [of s a b] by simp
  show ?thesis
    unfolding get_candidates_def Let_def
    by (simp only: loc_mask_same_index [OF e] loc_mask_same_index [OF c] keep_positions
        sum.case)
qed

theorem get_candidates_selects_witness:
  "get_candidates flagged_space False True =
     Inr (\<lparr>columns = [''A''], body = [(0, [Num 1]), (1, [Num 2])]\<rparr>,
          \<lparr>columns = [''A''], body = [(0, [Some 1]), (1, [Some 2])]\<rparr>)"
  using get_candidates_selects [of flagged_space False True]
  by (simp add: flagged_space_def index_def candidate_positions_def is_candidate_def
      fresh_flags_def nths_Cons nth_Cons')

subsection \<open>The frozen column set of the transform\<close>

lemma encode_columns_columns:
  "encode_columns ps f = Inr dfs \<Longrightarrow> map columns dfs = map (\<lambda>p. map fst (comp_df p)) ps"
  by (induction ps arbitrary: dfs)
    (auto simp: transform_rep_exp2comp_def split: sum.splits)

lemma columns_drop_single_subset:
  "set (columns (df_drop_single_value_columns f)) \<subseteq> set (columns f)"
  by (auto simp: df_drop_single_value_columns_def Let_def)

lemma columns_drop_single_Nil:
  "columns f = [] \<Longrightarrow> columns (df_drop_single_value_columns f) = []"
  by (simp add: df_drop_single_value_columns_def)

lemma select_columns_ok:
  assumes "set cols \<subseteq> set (columns f)"
  shows "\<exists>g. select_columns f cols = Inr g \<and> columns g = cols \<and> index g = index f"
proof -
  have "filter (\<lambda>c. c \<notin> set (columns f)) cols = []"
    using assms by (auto simp: filter_empty_conv)
  then show ?thesis by (simp add: select_columns_def index_def comp_def)
qed

lemma frozen_columns:
  assumes "SubspaceDiscrete ps erep ee = Inr s"
  shows "parameters s = ps \<and> empty_encoding s = ee \<and> exp_rep s = erep
         \<and> set (columns (comp_rep s)) \<subseteq> set (all_comp_columns ps)
         \<and> (ee \<longrightarrow> columns (comp_rep s) = [])"
proof (cases "ee \<or> length (body erep) < 1")
  case True
  with assms show ?thesis
    by (auto simp: SubspaceDiscrete_def transform_with_def columns_drop_single_Nil)
next
  case False
  with assms obtain dfs where dfs: "encode_columns ps erep = Inr dfs"
    and s: "s = \<lparr>parameters = ps, exp_rep = erep,
                 comp_rep = df_drop_single_value_columns (concat_axis1 dfs),
                 metadata = map (\<lambda>l. (l, fresh_flags)) (index erep), empty_encoding = ee\<rparr>"
    by (auto simp: SubspaceDiscrete_def transform_with_def split: sum.splits)
  have "columns (concat_axis1 dfs) = all_comp_columns ps"
    by (simp add: concat_axis1_columns encode_columns_columns [OF dfs] all_comp_columns_def)
  with columns_drop_single_subset [of "concat_axis1 dfs"] s False show ?thesis by auto
qed

text \<open>
  Claim C2, as amended. The column set of \<open>comp_rep\<close> is fixed by the constructor. Every later
  \<^verbatim>\<open>transform\<close> of input that has a column per discrete parameter and at least one row
  returns a frame with exactly the columns of \<open>comp_rep\<close>; for input without rows it
  returns a frame without columns; and in empty-encoding mode it returns a frame without
  columns whatever the number of input rows.
\<close>

theorem transform_frozen_columns:
  assumes "SubspaceDiscrete ps erep ee = Inr s"
    and "wf_frame data" and "set (map name ps) \<subseteq> set (columns data)"
  shows "\<exists>f. transform s data = Inr f
           \<and> columns f = (if body data = [] then [] else columns (comp_rep s))
           \<and> (ee \<longrightarrow> columns f = [])"
proof -
  note fz = frozen_columns [OF assms(1)]
  show ?thesis
  proof (cases "ee \<or> length (body data) < 1")
    case True
    with fz show ?thesis by (auto simp: transform_def transform_with_def)
  next
    case False
    from encode_columns_ok [OF assms(2,3)] obtain dfs where
      dfs: "encode_columns ps data = Inr dfs"
      "map columns dfs = map (\<lambda>p. map fst (comp_df p)) ps"
      by blast
    have "columns (concat_axis1 dfs) = all_comp_columns ps"
      by (simp add: concat_axis1_columns dfs(2) all_comp_columns_def)
    with fz have "set (columns (comp_rep s)) \<subseteq> set (columns (concat_axis1 dfs))" by simp
    from select_columns_ok [OF this] obtain g where
      "select_columns (concat_axis1 dfs) (columns (comp_rep s)) = Inr g"
      "columns g = columns (comp_rep s)"
      by blast
    with False fz dfs(1) show ?thesis by (auto simp: transform_def transform_with_def)
  qed
qed

lemma NumericalDiscreteParameter_sel:
  "name (NumericalDiscreteParameter n vs tol) = n"
  "is_numeric (NumericalDiscreteParameter n vs tol) = True"
  "values_of (NumericalDiscreteParameter n vs tol) = map Num vs"
  "comp_df (NumericalDiscreteParameter n vs tol) = [(n, vs)]"
  "is_in_range (NumericalDiscreteParameter n vs tol) (Num x) = list_ex (\<lambda>d. \<bar>d - x\<bar> \<le> tol) vs"
  "is_in_range (NumericalDiscreteParameter n vs tol) (Cat l) = False"
  by (simp_all add: NumericalDiscreteParameter_def)

lemma CategoricalParameter_sel:
  "name (CategoricalParameter n ls) = n"
  "is_numeric (CategoricalParameter n ls) = False"
  "values_of (CategoricalParameter n ls) = map Cat ls"
  "comp_df (CategoricalParameter n ls) =
     map (\<lambda>l. (n @ ''_'' @ l, map (\<lambda>l'. if l' = l then 1 else 0) ls)) ls"
  "is_in_range (CategoricalParameter n ls) v = (v \<in> set (map Cat ls))"
  by (simp_all add: CategoricalParameter_def)

lemma abc_constructed: "SubspaceDiscrete abc_parameters abc_exp_rep False = Inr abc_space"
  by (simp add: SubspaceDiscrete_def transform_with_def abc_parameters_def abc_exp_rep_def
      abc_space_def NumericalDiscreteParameter_sel get_column_def position_def
      transform_rep_exp2comp_def encode_def df_drop_single_value_columns_def
      constant_column_def index_def)

text \<open>
  Claim C2 as stated fails on input without rows: the subspace built from the parameter
  \<open>A\<close> keeps the column \<open>A\<close>, and the transform of a frame with the column \<open>A\<close> and no row
  has no column.
\<close>

theorem transform_no_rows_no_columns:
  "SubspaceDiscrete abc_parameters abc_exp_rep False = Inr abc_space
   \<and> columns (comp_rep abc_space) = [''A'']
   \<and> transform abc_space \<lparr>columns = [''A''], body = []\<rparr> = Inr \<lparr>columns = [], body = []\<rparr>"
  by (simp add: abc_constructed) (simp add: abc_space_def transform_def transform_with_def)

theorem transform_frozen_columns_witness:
  "\<exists>f. transform abc_space \<lparr>columns = [''A'', ''note''], body = [(7, [Num 2, Cat ''x''])]\<rparr> = Inr f
       \<and> columns f = [''A'']"
proof -
  let ?data = "\<lparr>columns = [''A'', ''note''], body = [(7, [Num 2, Cat ''x''])]\<rparr> :: val frame"
  have w: "wf_frame ?data" by (simp add: wf_frame_def)
  have c: "set (map name abc_parameters) \<subseteq> set (columns ?data)"
    by (simp add: abc_parameters_def NumericalDiscreteParameter_sel)
  from transform_frozen_columns [OF abc_constructed w c] obtain f where
    "transform abc_space ?data = Inr f"
    "columns f = (if body ?data = [] then [] else columns (comp_rep abc_space))"
    by blast
  then show ?thesis by (simp add: abc_space_def)
qed

subsection \<open>Bounds of the composed search space\<close>

text \<open>
  Where the discrete subspace has bounds, the composed bounds list the discrete blocks
  first and the continuous bounds after them, in both rows.
\<close>

lemma param_bounds_comp_order:
  assumes "d_param_bounds_comp (discrete ss) = Inr d"
  shows "param_bounds_comp ss =
           Inr [map fst (bound_blocks (discrete ss))
                  @ map (\<lambda>p. fst (c_bounds p)) (c_parameters (continuous ss)),
                map snd (bound_blocks (discrete ss))
                  @ map (\<lambda>p. snd (c_bounds p)) (c_parameters (continuous ss))]"
proof -
  have d: "d = [map fst (bound_blocks (discrete ss)), map snd (bound_blocks (discrete ss))]"
    using assms by (auto simp: d_param_bounds_comp_def bound_blocks_def split: if_splits)
  have c: "c_param_bounds_comp (continuous ss) =
             [map (\<lambda>p. fst (c_bounds p)) (c_parameters (continuous ss)),
              map (\<lambda>p. snd (c_bounds p)) (c_parameters (continuous ss))]"
    by (simp add: c_param_bounds_comp_def)
  show ?thesis
    unfolding param_bounds_comp_def assms by (simp add: d c hstack_def)
qed

lemma create_splits_parameters:
  assumes "SearchSpace_create ord ps constraints ee = Inr ss"
  shows "c_parameters (continuous ss) = continuous_of ps"
    and "create ord (discrete_of ps) constraints ee = Inr (discrete ss)"
  using assms
  by (auto simp: SearchSpace_create_def SearchSpace_def split: sum.splits if_splits)

lemma d_param_bounds_comp_empty_encoding:
  assumes "SubspaceDiscrete ps erep True = Inr s" and "ps \<noteq> []"
  shows "d_param_bounds_comp s = Inl NoArrays"
proof -
  from frozen_columns [OF assms(1)] have "parameters s = ps" "columns (comp_rep s) = []"
    by simp_all
  with assms(2) show ?thesis
    by (simp add: d_param_bounds_comp_def bound_blocks_def)
qed

text \<open>The example: parameters given interleaved, bounds with the discrete columns first.\<close>

lemma interleaved_discrete_of:
  "discrete_of interleaved_parameters =
     [NumericalDiscreteParameter ''A_disc'' [1, 2, 3] 0,
      NumericalDiscreteParameter ''B_disc'' [7, 8, 9] 0]"
  by (simp add: interleaved_parameters_def discrete_of_def)

lemma interleaved_product:
  "parameter_cartesian_prod_to_df (discrete_of interleaved_parameters) =
     exp_rep interleaved_discrete"
  by (simp add: parameter_cartesian_prod_to_df_def interleaved_discrete_of
      NumericalDiscreteParameter_sel interleaved_discrete_def)

lemma interleaved_encoded:
  "transform_with (discrete_of interleaved_parameters) False None
     (exp_rep interleaved_discrete) = Inr (comp_rep interleaved_discrete)"
  by (simp add: transform_with_def interleaved_discrete_of interleaved_discrete_def
      NumericalDiscreteParameter_sel get_column_def position_def transform_rep_exp2comp_def
      encode_def hjoin_def)

lemma interleaved_kept:
  "df_drop_single_value_columns (comp_rep interleaved_discrete) = comp_rep interleaved_discrete"
  by (simp add: df_drop_single_value_columns_def constant_column_def interleaved_discrete_def)

lemma interleaved_created:
  "SearchSpace_create demo_order interleaved_parameters None False = Inr interleaved_space"
proof -
  have r: "reset_index (exp_rep interleaved_discrete) = exp_rep interleaved_discrete"
    by (simp add: reset_index_def interleaved_discrete_def)
  have "SubspaceDiscrete (discrete_of interleaved_parameters) (exp_rep interleaved_discrete)
          False = Inr interleaved_discrete"
    by (simp add: SubspaceDiscrete_def interleaved_encoded interleaved_kept)
      (simp add: interleaved_discrete_def index_def)
  then have "create demo_order (discrete_of interleaved_parameters) None False
               = Inr interleaved_discrete"
    by (simp add: create_def interleaved_product r)
  then show ?thesis
    by (simp add: SearchSpace_create_def SearchSpace_def interleaved_space_def)
      (simp add: interleaved_parameters_def)
qed

lemma interleaved_bounds:
  "param_bounds_comp interleaved_space =
     Inr [[Fin 1, Fin 7, Fin 4, Fin 10], [Fin 3, Fin 9, Fin 6, Fin 12]]"
  by (simp add: param_bounds_comp_def d_param_bounds_comp_def bound_blocks_def
      interleaved_space_def interleaved_discrete_def interleaved_discrete_of
      NumericalDiscreteParameter_sel col_min_def col_max_def hstack_def c_param_bounds_comp_def)
    (simp add: interleaved_parameters_def continuous_of_def)

lemma hybrid_product:
  "parameter_cartesian_prod_to_df (discrete_of hybrid_parameters) =
     \<lparr>columns = [''A_disc''], body = [(0, [Num 1]), (1, [Num 2]), (2, [Num 3])]\<rparr>"
  by (simp add: parameter_cartesian_prod_to_df_def hybrid_parameters_def discrete_of_def
      NumericalDiscreteParameter_sel)

lemma hybrid_created:
  "SearchSpace_create demo_order hybrid_parameters None True = Inr hybrid_space"
  by (simp add: SearchSpace_create_def create_def hybrid_product SubspaceDiscrete_def
      transform_with_def reset_index_def df_drop_single_value_columns_def index_def
      hybrid_discrete_def hybrid_space_def SearchSpace_def)
    (simp add: hybrid_parameters_def)

lemma fixed_discrete_of:
  "discrete_of fixed_parameters = [NumericalDiscreteParameter ''A_disc'' [5] 0]"
  by (simp add: fixed_parameters_def discrete_of_def)

lemma fixed_created:
  "SearchSpace_create demo_order fixed_parameters None False = Inr fixed_space"
proof -
  have p: "parameter_cartesian_prod_to_df (discrete_of fixed_parameters)
             = exp_rep fixed_discrete"
    by (simp add: parameter_cartesian_prod_to_df_def fixed_discrete_of
        NumericalDiscreteParameter_sel fixed_discrete_def)
  have r: "reset_index (exp_rep fixed_discrete) = exp_rep fixed_discrete"
    by (simp add: reset_index_def fixed_discrete_def)
  have t: "transform_with (discrete_of fixed_parameters) False None (exp_rep fixed_discrete)
             = Inr \<lparr>columns = [''A_disc''], body = [(0, [Some 5])]\<rparr>"
    by (simp add: transform_with_def fixed_discrete_of fixed_discrete_def
        NumericalDiscreteParameter_sel get_column_def position_def transform_rep_exp2comp_def
        encode_def)
  have d: "df_drop_single_value_columns \<lparr>columns = [''A_disc''], body = [(0, [Some (5 :: real)])]\<rparr>
             = comp_rep fixed_discrete"
    by (simp add: df_drop_single_value_columns_def constant_column_def fixed_discrete_def)
  have "SubspaceDiscrete (discrete_of fixed_parameters) (exp_rep fixed_discrete) False
          = Inr fixed_discrete"
    by (simp add: SubspaceDiscrete_def t d) (simp add: fixed_discrete_def index_def)
  then have "create demo_order (discrete_of fixed_parameters) None False = Inr fixed_discrete"
    by (simp add: create_def p r)
  then show ?thesis
    by (simp add: SearchSpace_create_def SearchSpace_def fixed_space_def)
      (simp add: fixed_parameters_def)
qed

text \<open>
  Claim C6. The claim describes the bounds of every search space as the discrete bounds,
  restricted to the computational columns that survived, followed by the continuous ones.
  Where a discrete parameter exists and no computational column survives, the code stacks an
  empty list of blocks, which raises, while the claim gives the continuous bounds alone: so
  for a hybrid space whose discrete parameter has a single value (its column is constant and
  pruned), and for a hybrid space created in empty-encoding mode.
\<close>

theorem param_bounds_comp_all_pruned:
  "SearchSpace_create demo_order fixed_parameters None False = Inr fixed_space
   \<and> param_bounds_comp fixed_space = Inl NoArrays
   \<and> SearchSpace_create demo_order hybrid_parameters None True = Inr hybrid_space
   \<and> param_bounds_comp hybrid_space = Inl NoArrays"
  by (simp add: hybrid_created fixed_created)
    (simp add: param_bounds_comp_def d_param_bounds_comp_def bound_blocks_def hybrid_space_def
      hybrid_discrete_def hybrid_parameters_def fixed_space_def fixed_discrete_def
      fixed_parameters_def discrete_of_def)

subsection \<open>Matching measurements\<close>

lemma cell_ok:
  "c \<in> set cols \<Longrightarrow> length r = length cols \<Longrightarrow> cell cols r c = Inr (value_of cols r c)"
  using position_less [of c cols] by (simp add: cell_def value_of_def)

lemma cells_ok:
  "set cs \<subseteq> set cols \<Longrightarrow> length r = length cols \<Longrightarrow>
   cells cols r cs = Inr (map (value_of cols r) cs)"
  by (induction cs) (simp_all add: cell_ok)

lemma check_row_ok:
  assumes "length r = length cols"
  shows "set (map name ps) \<subseteq> set cols \<Longrightarrow>
         check_row ps must cols l r True =
           (case find (offending must cols r) ps of
              None \<Rightarrow> Inr True
            | Some p \<Rightarrow> Inl (InvalidValue l (name p)))"
proof (induction ps)
  case Nil
  then show ?case by simp
next
  case (Cons p ps)
  then have "name p \<in> set cols" by simp
  from cell_ok [OF this assms] Cons show ?case
    by (auto simp: offending_def)
qed

lemma nums_of_ok: "list_all is_num vs \<Longrightarrow> nums_of vs = Inr (map the_num vs)"
  by (induction vs) (auto simp: is_num_def the_num_def num_of_def split: val.splits)

lemma num_of_ok: "is_num v \<Longrightarrow> num_of v = Inr (the_num v)"
  by (auto simp: is_num_def the_num_def num_of_def split: val.splits)

lemma series_min_Min: "xs \<noteq> [] \<Longrightarrow> series_min xs = Some (Min (set xs))"
proof (cases xs)
  case Nil
  assume "xs \<noteq> []"
  with Nil show ?thesis by simp
next
  case (Cons a ys)
  have "fold min ys a = Min (set (a # ys))"
    by (rule Min.set_eq_fold [symmetric])
  then show ?thesis by (simp add: series_min_def Cons)
qed

lemma attains_series_min:
  assumes "x \<in> set xs"
  shows "(Some x = series_min xs) = (\<forall>y \<in> set xs. x \<le> y)"
proof -
  from assms have ne: "xs \<noteq> []" by auto
  have "(x = Min (set xs)) = (\<forall>y \<in> set xs. x \<le> y)"
    using assms by (metis List.finite_set Min_eqI Min_le)
  with series_min_Min [OF ne] show ?thesis by simp
qed

lemma rezip:
  "length ms = length rows \<Longrightarrow>
   map (\<lambda>(m, lr). m \<and> Q lr) (zip (map (\<lambda>(m, lr). m \<and> P lr) (zip ms rows)) rows)
   = map (\<lambda>(m, lr). m \<and> P lr \<and> Q lr) (zip ms rows)"
  by (induction ms rows rule: list_induct2) auto

lemma narrow_ok:
  assumes wf: "wf_frame erep" and len: "length r = length cols"
  shows "set params \<subseteq> set (columns erep) \<Longrightarrow> set params \<subseteq> set cols \<Longrightarrow>
    \<forall>c \<in> set params. is_num (value_of cols r c)
       \<and> list_all (\<lambda>lr. is_num (value_of (columns erep) (snd lr) c)) (body erep) \<Longrightarrow>
    length ms = length (body erep) \<Longrightarrow>
    narrow absdiff erep cols r params ms =
      Inr (map (\<lambda>(m, lr). m \<and>
                 list_all (\<lambda>c. list_all
                    (\<lambda>lr'. absdiff (the_num (value_of (columns erep) (snd lr) c))
                              (the_num (value_of cols r c))
                          \<le> absdiff (the_num (value_of (columns erep) (snd lr') c))
                              (the_num (value_of cols r c)))
                    (body erep)) params)
             (zip ms (body erep)))"
proof (induction params arbitrary: ms)
  case Nil
  then show ?case by (simp add: map_idI split_def)
next
  case (Cons c params)
  let ?rows = "body erep"
  let ?D = "\<lambda>lr. absdiff (the_num (value_of (columns erep) (snd lr) c))
                 (the_num (value_of cols r c))"
  let ?abs = "map ?D ?rows"
  have c1: "c \<in> set (columns erep)" and c2: "c \<in> set cols" using Cons.prems by simp_all
  have n1: "is_num (value_of cols r c)" using Cons.prems(3) by simp
  have n2: "list_all (\<lambda>lr. is_num (value_of (columns erep) (snd lr) c)) ?rows"
    using Cons.prems(3) by simp
  have col: "get_column erep c = Inr (map (\<lambda>lr. (fst lr, value_of (columns erep) (snd lr) c)) ?rows)"
    using get_column_ok [OF wf c1] by (simp add: value_of_def)
  have nums: "nums_of (map (\<lambda>lr. value_of (columns erep) (snd lr) c) ?rows)
              = Inr (map (\<lambda>lr. the_num (value_of (columns erep) (snd lr) c)) ?rows)"
    using nums_of_ok [of "map (\<lambda>lr. value_of (columns erep) (snd lr) c) ?rows"] n2
    by (simp add: comp_def list_all_iff)
  let ?ms' = "map (\<lambda>(m, d). m \<and> Some d = series_min ?abs) (zip ms ?abs)"
  have step: "narrow absdiff erep cols r (c # params) ms = narrow absdiff erep cols r params ?ms'"
    by (simp add: col nums cell_ok [OF c2 len] num_of_ok [OF n1] comp_def Let_def)
  have ms': "?ms' = map (\<lambda>(m, lr). m \<and> list_all (\<lambda>lr'. ?D lr \<le> ?D lr') ?rows) (zip ms ?rows)"
  proof -
    have "?ms' = map (\<lambda>(m, lr). m \<and> Some (?D lr) = series_min ?abs) (zip ms ?rows)"
      by (simp add: zip_map2 split_def comp_def)
    also have "\<dots> = map (\<lambda>(m, lr). m \<and> list_all (\<lambda>lr'. ?D lr \<le> ?D lr') ?rows) (zip ms ?rows)"
    proof (rule map_cong [OF refl])
      fix x assume "x \<in> set (zip ms ?rows)"
      then have "snd x \<in> set ?rows" by (metis set_zip_rightD prod.collapse)
      then have "?D (snd x) \<in> set ?abs" by simp
      from attains_series_min [OF this]
      show "(case x of (m, lr) \<Rightarrow> m \<and> Some (?D lr) = series_min ?abs)
            = (case x of (m, lr) \<Rightarrow> m \<and> list_all (\<lambda>lr'. ?D lr \<le> ?D lr') ?rows)"
        by (simp add: split_def list_all_iff)
    qed
    finally show ?thesis .
  qed
  have l': "length ?ms' = length ?rows" using Cons.prems(4) by simp
  have p1: "set params \<subseteq> set (columns erep)" and p2: "set params \<subseteq> set cols"
    and p3: "\<forall>c \<in> set params. is_num (value_of cols r c)
       \<and> list_all (\<lambda>lr. is_num (value_of (columns erep) (snd lr) c)) (body erep)"
    using Cons.prems by simp_all
  show ?case
    unfolding step Cons.IH [OF p1 p2 p3 l']
    unfolding ms' rezip [OF Cons.prems(4)]
    by (simp add: split_def)
qed

lemma recorded_take: "recorded ps found = take 1 found"
  by (cases found; cases "tl found") (auto simp: recorded_def)

lemma cols_subset:
  "set (cat_cols ps) \<subseteq> set (map name ps)" "set (num_cols ps) \<subseteq> set (map name ps)"
  by (auto simp: cat_cols_def num_cols_def)

lemma filter_zip_map:
  "map fst (filter snd (zip (map fst rows) (map C rows))) = map fst (filter C rows)"
  by (induction rows) auto

lemma zip_map_same: "zip (map g rows) rows = map (\<lambda>lr. (g lr, lr)) rows"
  by (induction rows) auto

lemma inds_found_ok:
  assumes wf: "well_formed s" and len: "length r = length cols"
    and sub: "set (map name (parameters s)) \<subseteq> set cols"
    and num: "\<forall>c \<in> set (num_cols (parameters s)). is_num (value_of cols r c)"
  shows "inds_found absdiff s cols r = Inr (matches absdiff s cols r)"
proof -
  let ?ps = "parameters s" and ?E = "columns (exp_rep s)" and ?rows = "body (exp_rep s)"
  from wf have wfe: "wf_frame (exp_rep s)" and E: "?E = map name ?ps"
    and nc: "numeric_cells ?ps (exp_rep s)"
    by (simp_all add: well_formed_def)
  have "filter (\<lambda>c. c \<notin> set ?E) (cat_cols ?ps) = []"
    using cols_subset(1) [of ?ps] E by (auto simp: filter_empty_conv)
  then have sel: "select_columns (exp_rep s) (cat_cols ?ps) =
      Inr \<lparr>columns = cat_cols ?ps,
           body = map (\<lambda>lr. (fst lr, map (\<lambda>c. value_of ?E (snd lr) c) (cat_cols ?ps))) ?rows\<rparr>"
    by (simp add: select_columns_def value_of_def)
  have cl: "cells cols r (cat_cols ?ps) = Inr (map (value_of cols r) (cat_cols ?ps))"
    using cells_ok [OF _ len, of "cat_cols ?ps"] cols_subset(1) [of ?ps] sub by auto
  let ?ms = "map (\<lambda>lr. \<forall>c \<in> set (cat_cols ?ps). value_of ?E (snd lr) c = value_of cols r c)
               ?rows"
  have n1: "set (num_cols ?ps) \<subseteq> set ?E" using cols_subset(2) [of ?ps] E by simp
  have n2: "set (num_cols ?ps) \<subseteq> set cols" using cols_subset(2) [of ?ps] sub by auto
  have n3: "\<forall>c \<in> set (num_cols ?ps). is_num (value_of cols r c)
       \<and> list_all (\<lambda>lr. is_num (value_of ?E (snd lr) c)) ?rows"
    using num nc n1 by (auto simp: numeric_cells_def list_all_iff)
  have nar: "narrow absdiff (exp_rep s) cols r (num_cols ?ps) ?ms =
      Inr (map (\<lambda>lr. closest absdiff s cols r (snd lr)) ?rows)"
  proof -
    have l: "length ?ms = length ?rows" by simp
    show ?thesis
      unfolding narrow_ok [OF wfe len n1 n2 n3 l] zip_map_same
      by (simp add: comp_def closest_def deviation_def list_all_iff)
  qed
  show ?thesis
    unfolding inds_found_def sel cl
    by (simp add: comp_def nar index_def filter_zip_map matches_def)
qed

lemma match_rows_ok:
  assumes wf: "well_formed s" and sub: "set (map name (parameters s)) \<subseteq> set cols"
  shows "\<forall>lr \<in> set rows. length (snd lr) = length cols
             \<and> (\<forall>c \<in> set (num_cols (parameters s)). is_num (value_of cols (snd lr) c)) \<Longrightarrow>
         match_rows absdiff s must cols rows =
           (case first_error (row_error must cols (parameters s)) rows of
              Some e \<Rightarrow> Inl e
            | None \<Rightarrow> Inr (concat (map (\<lambda>lr. take 1 (matches absdiff s cols (snd lr))) rows)))"
proof (induction rows)
  case Nil
  then show ?case by simp
next
  case (Cons lr rows)
  then have len: "length (snd lr) = length cols"
    and num: "\<forall>c \<in> set (num_cols (parameters s)). is_num (value_of cols (snd lr) c)"
    by simp_all
  from Cons have IH: "match_rows absdiff s must cols rows =
           (case first_error (row_error must cols (parameters s)) rows of
              Some e \<Rightarrow> Inl e
            | None \<Rightarrow> Inr (concat (map (\<lambda>lr. take 1 (matches absdiff s cols (snd lr))) rows)))"
    by simp
  show ?case
  proof (cases "find (offending must cols (snd lr)) (parameters s)")
    case None
    then have "row_error must cols (parameters s) lr = None" by (simp add: row_error_def)
    with None show ?thesis
      by (simp add: check_row_ok [OF len sub] inds_found_ok [OF wf len sub num] IH
          recorded_take split: option.splits)
  next
    case (Some p)
    then have "row_error must cols (parameters s) lr = Some (InvalidValue (fst lr) (name p))"
      by (simp add: row_error_def)
    with Some show ?thesis
      by (simp add: check_row_ok [OF len sub])
  qed
qed

lemma matches_subset: "set (matches absdiff s cols r) \<subseteq> set (index (exp_rep s))"
  by (auto simp: matches_def index_def)

lemma recorded_indices_subset: "set (recorded_indices absdiff s df) \<subseteq> set (index (exp_rep s))"
proof -
  have "set (take 1 (matches absdiff s cols r)) \<subseteq> set (index (exp_rep s))" for cols r
    using matches_subset [of absdiff s cols r] set_take_subset [of 1 "matches absdiff s cols r"] by blast
  then show ?thesis by (auto simp: recorded_indices_def)
qed

lemma set_was_measured_ok:
  "set inds \<subseteq> set (map fst md) \<Longrightarrow> set_was_measured md inds = Inr (set_flags inds md)"
proof -
  assume "set inds \<subseteq> set (map fst md)"
  then have "filter (\<lambda>l. l \<notin> set (map fst md)) inds = []"
    by (auto simp: filter_empty_conv)
  then show ?thesis by (simp add: set_was_measured_def set_flags_def)
qed

lemma match_measurement_ok:
  assumes wf: "well_formed s" and ty: "well_typed s df"
  shows "match_measurement_with_searchspace_indices absdiff s df must =
           (case validation_error s df must of
              Some e \<Rightarrow> Inl e
            | None \<Rightarrow> Inr (recorded_indices absdiff s df))"
proof (cases "list_all (\<lambda>p. name p \<in> set (columns df)) (parameters s)")
  case False
  moreover have "columns (exp_rep s) = map name (parameters s)"
    using wf by (simp add: well_formed_def)
  ultimately show ?thesis
    by (simp add: match_measurement_with_searchspace_indices_def validation_error_def
        list_all_iff)
next
  case True
  then have sub: "set (map name (parameters s)) \<subseteq> set (columns df)"
    by (auto simp: list_all_iff)
  have E: "columns (exp_rep s) = map name (parameters s)"
    using wf by (simp add: well_formed_def)
  have rows: "\<forall>lr \<in> set (body df). length (snd lr) = length (columns df)
             \<and> (\<forall>c \<in> set (num_cols (parameters s)). is_num (value_of (columns df) (snd lr) c))"
  proof -
    have "set (num_cols (parameters s)) \<subseteq> set (columns df)"
      using sub cols_subset(2) [of "parameters s"] by blast
    with ty show ?thesis
      by (fastforce simp: well_typed_def wf_frame_def numeric_cells_def list_all_iff)
  qed
  from True E have "list_all (\<lambda>c. c \<in> set (columns df)) (columns (exp_rep s))"
    by (simp add: list_all_iff)
  with True show ?thesis
    by (simp add: match_measurement_with_searchspace_indices_def validation_error_def
        match_rows_ok [OF wf sub rows] recorded_indices_def split: option.splits)
qed

text \<open>
  Claim C4. For a subspace as the constructor builds it and a measurement frame whose numeric
  columns hold numbers, \<^verbatim>\<open>mark_as_measured\<close> ends in exactly the validation error of the
  specification: the missing-column error when a parameter has no column; else the error
  that names the first offending row and its first offending parameter, where a categorical
  value offends outside the domain whatever the flag and a numeric value only under the
  flag; and no error otherwise, so that a numeric value out of range without the flag goes
  on to the nearest match.
\<close>

theorem mark_as_measured_validation:
  assumes "well_formed s" and "well_typed s df"
  shows "snd (mark_as_measured absdiff s df must) = validation_error s df must"
proof (cases "validation_error s df must")
  case None
  have "set (recorded_indices absdiff s df) \<subseteq> set (map fst (metadata s))"
    using recorded_indices_subset [of absdiff s df] assms(1) by (simp add: well_formed_def)
  from set_was_measured_ok [OF this] None show ?thesis
    by (simp add: mark_as_measured_def match_measurement_ok [OF assms])
next
  case (Some e)
  then show ?thesis
    by (simp add: mark_as_measured_def match_measurement_ok [OF assms])
qed


lemma only_measured_set_refl: "only_measured_set md md"
  by (simp add: only_measured_set_def list_all2_same)

lemma set_was_measured_only:
  "set_was_measured md inds = Inr md' \<Longrightarrow> only_measured_set md md'"
  by (auto simp: set_was_measured_def only_measured_set_def list_all2_map2 list_all2_same
      split: list.splits)

text \<open>
  Claim C10. When \<^verbatim>\<open>mark_as_measured\<close> raises, the subspace is as it was before the call,
  whatever earlier input rows matched. In every case the parameters, both representations
  and the encoding mode are unchanged, the metadata keeps its labels and its
  \<open>was_recommended\<close> and \<open>dont_recommend\<close> flags, and no \<open>was_measured\<close> flag goes from \<open>True\<close>
  to \<open>False\<close>.
\<close>

theorem mark_as_measured_atomic:
  "(snd (mark_as_measured absdiff s df must) \<noteq> None \<longrightarrow> fst (mark_as_measured absdiff s df must) = s)
   \<and> parameters (fst (mark_as_measured absdiff s df must)) = parameters s
   \<and> exp_rep (fst (mark_as_measured absdiff s df must)) = exp_rep s
   \<and> comp_rep (fst (mark_as_measured absdiff s df must)) = comp_rep s
   \<and> empty_encoding (fst (mark_as_measured absdiff s df must)) = empty_encoding s
   \<and> only_measured_set (metadata s) (metadata (fst (mark_as_measured absdiff s df must)))"
proof (cases "match_measurement_with_searchspace_indices absdiff s df must")
  case (Inl e)
  then show ?thesis by (simp add: mark_as_measured_def only_measured_set_refl)
next
  case (Inr inds)
  show ?thesis
  proof (cases "set_was_measured (metadata s) inds")
    case (Inl e)
    with Inr show ?thesis by (simp add: mark_as_measured_def only_measured_set_refl)
  next
    case (Inr md)
    from set_was_measured_only [OF this] Inr
      \<open>match_measurement_with_searchspace_indices absdiff s df must = Inr inds\<close>
    show ?thesis by (simp add: mark_as_measured_def)
  qed
qed

lemmas gap_eval =
  gap_space_def gap_parameters_def NumericalDiscreteParameter_sel CategoricalParameter_sel
  wf_frame_def index_def numeric_cells_def num_cols_def cat_cols_def value_of_def position_def
  is_num_def the_num_def fresh_flags_def exact_absdiff_def

lemma gap_well_formed: "well_formed gap_space"
  by (simp add: well_formed_def gap_eval)

lemma gap_well_typed:
  "well_typed gap_space bad_measurements" "well_typed gap_space near_measurement"
  "well_typed gap_space far_measurement" "well_typed gap_space partial_measurement"
  by (simp_all add: well_typed_def gap_eval bad_measurements_def near_measurement_def
      far_measurement_def partial_measurement_def)

lemma gap_validation:
  "validation_error gap_space bad_measurements True = Some (InvalidValue 1 ''C'')"
  "validation_error gap_space partial_measurement False = Some MissingColumns"
  "validation_error gap_space far_measurement True = Some (InvalidValue 5 ''N'')"
  "validation_error gap_space far_measurement False = None"
  "validation_error gap_space near_measurement False = None"
  "validation_error gap_space bad_measurements False = Some (InvalidValue 1 ''C'')"
  by (simp_all add: validation_error_def row_error_def offending_def gap_eval
      bad_measurements_def near_measurement_def far_measurement_def partial_measurement_def)




text \<open>
  Where rounding makes the deviations of two rows equal, both rows attain the minimum and
  the first one is recorded; without rounding the nearer row is.
\<close>

lemma rounding_tie:
  assumes "absdiff 0 (10 ^ 17) = absdiff 1 (10 ^ 17)"
  shows "match_measurement_with_searchspace_indices absdiff binary_space huge_measurement False
           = Inr [0]"
  using assms
  by (simp add: match_measurement_with_searchspace_indices_def huge_measurement_def
      inds_found_def select_columns_def cell_def get_column_def num_of_def series_min_def
      recorded_def binary_space_def NumericalDiscreteParameter_sel num_cols_def cat_cols_def
      position_def index_def)

lemma no_rounding_nearest:
  "match_measurement_with_searchspace_indices exact_absdiff binary_space huge_measurement False
     = Inr [1]"
  by (simp add: match_measurement_with_searchspace_indices_def huge_measurement_def
      inds_found_def select_columns_def cell_def get_column_def num_of_def series_min_def
      recorded_def binary_space_def NumericalDiscreteParameter_sel num_cols_def cat_cols_def
      position_def index_def exact_absdiff_def)

theorem mark_as_measured_validation_witness:
  "snd (mark_as_measured exact_absdiff gap_space partial_measurement False) = Some MissingColumns
   \<and> snd (mark_as_measured exact_absdiff gap_space bad_measurements True)
       = Some (InvalidValue 1 ''C'')
   \<and> snd (mark_as_measured exact_absdiff gap_space bad_measurements False)
       = Some (InvalidValue 1 ''C'')
   \<and> snd (mark_as_measured exact_absdiff gap_space far_measurement True)
       = Some (InvalidValue 5 ''N'')
   \<and> snd (mark_as_measured exact_absdiff gap_space far_measurement False) = None"
  using mark_as_measured_validation [OF gap_well_formed gap_well_typed(4),
      where absdiff = exact_absdiff and must = False]
    mark_as_measured_validation [OF gap_well_formed gap_well_typed(1),
      where absdiff = exact_absdiff and must = True]
    mark_as_measured_validation [OF gap_well_formed gap_well_typed(1),
      where absdiff = exact_absdiff and must = False]
    mark_as_measured_validation [OF gap_well_formed gap_well_typed(3),
      where absdiff = exact_absdiff and must = True]
    mark_as_measured_validation [OF gap_well_formed gap_well_typed(3),
      where absdiff = exact_absdiff and must = False]
  by (simp add: gap_validation)



theorem mark_as_measured_atomic_witness:
  "snd (mark_as_measured exact_absdiff gap_space bad_measurements True) \<noteq> None
   \<and> fst (mark_as_measured exact_absdiff gap_space bad_measurements True) = gap_space
   \<and> recorded_indices exact_absdiff gap_space (bad_measurements\<lparr>body := take 1 (body bad_measurements)\<rparr>) = [0]"
proof -
  have "match_measurement_with_searchspace_indices exact_absdiff gap_space bad_measurements True
          = Inl (InvalidValue 1 ''C'')"
    by (simp add: match_measurement_ok [OF gap_well_formed gap_well_typed(1)] gap_validation)
  then have e: "snd (mark_as_measured exact_absdiff gap_space bad_measurements True) \<noteq> None"
    by (simp add: mark_as_measured_def)
  have r: "recorded_indices exact_absdiff gap_space (bad_measurements\<lparr>body := take 1 (body bad_measurements)\<rparr>)
             = [0]"
    by (simp add: recorded_indices_def matches_def closest_def deviation_def gap_eval
        bad_measurements_def)
  from mark_as_measured_atomic [of exact_absdiff gap_space bad_measurements True] e r show ?thesis by simp
qed

subsection \<open>Serialization round trip\<close>

lemma structure_hook_unstructure:
  "structure_hook (unstructure_discrete s)
     = SubspaceDiscrete (parameters s) (exp_rep s) (empty_encoding s)"
  by (simp add: structure_hook_def unstructure_discrete_def pop_def structure_attrs_fromdict_def)

lemma SubspaceDiscrete_metadata:
  "SubspaceDiscrete ps erep ee = Inr s \<Longrightarrow>
   metadata s = map (\<lambda>l. (l, fresh_flags)) (index erep)"
  by (auto simp: SubspaceDiscrete_def split: sum.splits)

text \<open>
  Claim C9, as amended. For a search space whose discrete subspace is what its constructor
  built, apart from the metadata, \<^verbatim>\<open>from_dict (to_dict space)\<close> succeeds and returns the space
  with the metadata initialized afresh: parameters, \<open>exp_rep\<close> and the encoding mode
  round-trip, \<open>comp_rep\<close> is recomputed to the same table. The dictionary does hold \<open>comp_rep\<close>
  and \<open>metadata\<close>; they are dropped on reload. The result equals the original exactly when the
  original metadata is the fresh one.
\<close>

theorem from_dict_to_dict:
  assumes "SubspaceDiscrete ps erep ee = Inr s0"
    and "discrete ss = s0\<lparr>metadata := md\<rparr>"
    and "1 \<le> length (ss_parameters ss)"
  shows "from_dict (to_dict ss) = Inr (ss\<lparr>discrete := s0\<rparr>)
         \<and> metadata s0 = map (\<lambda>l. (l, fresh_flags)) (index (exp_rep (discrete ss)))
         \<and> map_of (d_discrete (to_dict ss)) ''comp_rep'' = Some (CompD (comp_rep s0))
         \<and> map_of (d_discrete (to_dict ss)) ''metadata'' = Some (MetadataD md)
         \<and> (from_dict (to_dict ss) = Inr ss) = (md = metadata s0)"
proof -
  from frozen_columns [OF assms(1)] have f: "parameters s0 = ps" "empty_encoding s0 = ee"
    "exp_rep s0 = erep" by simp_all
  have "structure_hook (unstructure_discrete (discrete ss)) = Inr s0"
    using assms(1) by (simp add: structure_hook_unstructure assms(2) f)
  then have r: "from_dict (to_dict ss) = Inr (ss\<lparr>discrete := s0\<rparr>)"
    using assms(3) by (cases "ss_parameters ss") (simp_all add: from_dict_def to_dict_def SearchSpace_def)
  have m: "metadata s0 = map (\<lambda>l. (l, fresh_flags)) (index (exp_rep (discrete ss)))"
    using SubspaceDiscrete_metadata [OF assms(1)] by (simp add: assms(2) f)
  have e: "(ss\<lparr>discrete := s0\<rparr> = ss) = (md = metadata s0)"
  proof
    assume "ss\<lparr>discrete := s0\<rparr> = ss"
    then have "discrete ss = s0" by (metis search_space.select_convs(1) search_space.surjective search_space.update_convs(1))
    with assms(2) show "md = metadata s0" by (metis subspace_discrete.select_convs(4) subspace_discrete.surjective subspace_discrete.update_convs(4))
  next
    assume "md = metadata s0"
    with assms(2) have "discrete ss = s0" by simp
    then show "ss\<lparr>discrete := s0\<rparr> = ss" by simp
  qed
  show ?thesis
    using r m e by (simp add: to_dict_def unstructure_discrete_def assms(2))
qed

lemma gap_constructed:
  "SubspaceDiscrete gap_parameters (exp_rep gap_space) False = Inr gap_space"
  by (simp add: SubspaceDiscrete_def transform_with_def gap_parameters_def gap_space_def
      NumericalDiscreteParameter_sel CategoricalParameter_sel get_column_def position_def
      transform_rep_exp2comp_def encode_def hjoin_def df_drop_single_value_columns_def
      constant_column_def index_def)

theorem from_dict_to_dict_witness:
  "from_dict (to_dict gap_search_space) = Inr gap_search_space
   \<and> from_dict (to_dict measured_search_space) = Inr gap_search_space"
proof -
  have a: "discrete gap_search_space = gap_space\<lparr>metadata := metadata gap_space\<rparr>"
    by (simp add: gap_search_space_def)
  have b: "discrete measured_search_space
             = gap_space\<lparr>metadata := [(0, fresh_flags\<lparr>was_measured := True\<rparr>), (1, fresh_flags)]\<rparr>"
    by (simp add: measured_search_space_def)
  have c: "1 \<le> length (ss_parameters gap_search_space)"
    "1 \<le> length (ss_parameters measured_search_space)"
    by (simp_all add: gap_search_space_def measured_search_space_def gap_parameters_def)
  from from_dict_to_dict [OF gap_constructed a c(1)] from_dict_to_dict [OF gap_constructed b c(2)]
  show ?thesis by (simp add: measured_search_space_def gap_search_space_def)
qed

text \<open>
  Claim C9 as stated fails: a space with a measured row is reloaded with the flag reset, so
  the result is not equal to the original; and the serialized form contains \<open>comp_rep\<close> and
  \<open>metadata\<close>.
\<close>

theorem reload_resets_metadata:
  "from_dict (to_dict measured_search_space) = Inr gap_search_space
   \<and> gap_search_space \<noteq> measured_search_space
   \<and> map_of (d_discrete (to_dict measured_search_space)) ''comp_rep''
       = Some (CompD (comp_rep gap_space))
   \<and> map_of (d_discrete (to_dict measured_search_space)) ''metadata''
       = Some (MetadataD [(0, fresh_flags\<lparr>was_measured := True\<rparr>), (1, fresh_flags)])"
proof -
  have "structure_hook (unstructure_discrete (discrete measured_search_space)) = Inr gap_space"
    unfolding structure_hook_unstructure
    using gap_constructed by (simp add: measured_search_space_def gap_space_def)
  then have r: "from_dict (to_dict measured_search_space) = Inr gap_search_space"
    by (simp add: from_dict_def to_dict_def SearchSpace_def)
      (simp add: measured_search_space_def gap_search_space_def gap_parameters_def)
  have "metadata (discrete gap_search_space) \<noteq> metadata (discrete measured_search_space)"
    by (simp add: measured_search_space_def gap_search_space_def gap_space_def fresh_flags_def)
  then have n: "gap_search_space \<noteq> measured_search_space" by auto
  show ?thesis
    using r n by (simp add: to_dict_def unstructure_discrete_def measured_search_space_def)
qed

subsection \<open>What the constructor establishes\<close>

text \<open>
  The subspaces that \<^verbatim>\<open>create\<close> returns satisfy the well-formedness that the matching
  theorems assume, and the constrained space of the examples is one of them.
\<close>

lemma drop_index_Inr:
  "drop_index f inds = Inr g \<Longrightarrow> columns g = columns f \<and> set (body g) \<subseteq> set (body f)"
  by (auto simp: drop_index_def split: list.splits)

lemma remove_invalid_Inr:
  "remove_invalid cs f = Inr g \<Longrightarrow> columns g = columns f \<and> set (body g) \<subseteq> set (body f)"
proof (induction cs arbitrary: f)
  case Nil
  then show ?case by simp
next
  case (Cons c cs)
  then obtain f' where f': "drop_index f (get_invalid c f) = Inr f'"
    and r: "remove_invalid cs f' = Inr g"
    by (auto split: sum.splits)
  from Cons.IH [OF r] drop_index_Inr [OF f'] show ?case by auto
qed

lemma SubspaceDiscrete_Inr:
  assumes "SubspaceDiscrete ps erep ee = Inr s"
  shows "parameters s = ps" "exp_rep s = erep"
    "metadata s = map (\<lambda>l. (l, fresh_flags)) (index erep)"
  using assms by (auto simp: SubspaceDiscrete_def split: sum.splits)

lemma product_cell:
  assumes "xs \<in> set (product_lists xss)" and "i < length xss"
  shows "xs ! i \<in> set (xss ! i)"
  using assms by (simp add: product_lists_set list_all2_conv_all_nth)

lemma position_distinct:
  "distinct (map name ps) \<Longrightarrow> p \<in> set ps \<Longrightarrow> ps ! position (map name ps) (name p) = p"
proof -
  assume d: "distinct (map name ps)" and p: "p \<in> set ps"
  let ?i = "position (map name ps) (name p)"
  from p have n: "name p \<in> set (map name ps)" by simp
  from position_less [OF n] have i: "?i < length ps" by simp
  from nth_position [OF n] i have e: "name (ps ! ?i) = name p" by simp
  from p obtain j where j: "j < length ps" "ps ! j = p" by (auto simp: in_set_conv_nth)
  with e i have "map name ps ! ?i = map name ps ! j" by simp
  moreover have "?i < length (map name ps)" "j < length (map name ps)" using i j(1) by simp_all
  ultimately have "?i = j" using d nth_eq_iff_index_eq by blast
  with j(2) show ?thesis by simp
qed

lemma product_numeric_cells:
  assumes "typed_parameters ps"
  shows "numeric_cells ps (parameter_cartesian_prod_to_df ps)"
proof (cases "ps = []")
  case True
  then show ?thesis by (simp add: numeric_cells_def num_cols_def)
next
  case False
  have "is_num (value_of (map name ps) r (name p))"
    if r: "r \<in> set (product_lists (map values_of ps))" and p: "p \<in> set ps" "is_numeric p"
    for r p
  proof -
    let ?i = "position (map name ps) (name p)"
    from p(1) have "name p \<in> set (map name ps)" by simp
    from position_less [OF this] have i: "?i < length ps" by simp
    from assms p(1) have "ps ! ?i = p" by (simp add: typed_parameters_def position_distinct)
    with product_cell [OF r, of ?i] i have "r ! ?i \<in> set (values_of p)" by simp
    moreover from assms p have "list_all is_num (values_of p)"
      by (auto simp: typed_parameters_def list_all_iff)
    ultimately show ?thesis by (simp add: value_of_def list_all_iff)
  qed
  with False show ?thesis
    by (auto simp: numeric_cells_def num_cols_def parameter_cartesian_prod_to_df_def
        list_all_iff in_set_enumerate_eq)
qed

lemma create_well_formed:
  assumes "create ord ps constraints ee = Inr s" and "typed_parameters ps"
  shows "well_formed s"
proof -
  let ?p = "parameter_cartesian_prod_to_df ps"
  from assms(1) obtain cs g where g: "remove_invalid cs ?p = Inr g"
    and s: "SubspaceDiscrete ps (reset_index g) ee = Inr s"
    by (auto simp: create_def split: sum.splits)
  note sub = remove_invalid_Inr [OF g]
  note fields = SubspaceDiscrete_Inr [OF s]
  have rows: "snd ` set (body (reset_index g)) \<subseteq> snd ` set (body ?p)"
    using sub by (force simp: reset_index_def in_set_enumerate_eq)
  have cols: "columns (reset_index g) = columns ?p" using sub by (simp add: reset_index_def)
  have wf: "wf_frame (reset_index g)"
    using wf_product [of ps] rows cols by (fastforce simp: wf_frame_def list_all_iff)
  have names: "columns ?p = map name ps"
    by (simp add: parameter_cartesian_prod_to_df_def empty_frame_def)
  have num: "numeric_cells ps (reset_index g)"
    using product_numeric_cells [OF assms(2)] rows cols
    by (fastforce simp: numeric_cells_def list_all_iff)
  show ?thesis
    using wf num cols names fields by (simp add: well_formed_def index_def comp_def)
qed

lemma gap_product:
  "parameter_cartesian_prod_to_df gap_parameters =
     \<lparr>columns = [''C'', ''N''],
      body = [(0, [Cat ''a'', Num 1]), (1, [Cat ''a'', Num 2]),
              (2, [Cat ''b'', Num 1]), (3, [Cat ''b'', Num 2])]\<rparr>"
  by (simp add: parameter_cartesian_prod_to_df_def gap_parameters_def
      NumericalDiscreteParameter_sel CategoricalParameter_sel)

lemma gap_created: "create demo_order gap_parameters (Some [gap_constraint]) False = Inr gap_space"
proof -
  have s: "sort_constraints demo_order [gap_constraint] = Inr [gap_constraint]"
    by (simp add: sort_constraints_def gap_constraint_def demo_order_def)
  have r: "remove_invalid [gap_constraint] (parameter_cartesian_prod_to_df gap_parameters)
             = Inr \<lparr>columns = [''C'', ''N''],
                    body = [(0, [Cat ''a'', Num 1]), (3, [Cat ''b'', Num 2])]\<rparr>"
    by (simp add: gap_product gap_constraint_def drop_index_def index_def)
  have e: "reset_index \<lparr>columns = [''C'', ''N''],
                    body = [(0, [Cat ''a'', Num 1]), (3, [Cat ''b'', Num 2])]\<rparr>
           = exp_rep gap_space"
    by (simp add: reset_index_def gap_space_def)
  have f: "filter eval_during_creation [gap_constraint] = [gap_constraint]"
    by (simp add: gap_constraint_def)
  show ?thesis
    unfolding create_def option.case s sum.case f r e by (rule gap_constructed)
qed

end
